theory Spec2Isabelle
  imports Main
begin

section \<open>JavaScript values as the importer sees them\<close>

text \<open>
  The importer of \<^verbatim>\<open>src/formats/notion-api.ts\<close> works on the parsed JSON bodies of
  Notion API responses, typed \<^verbatim>\<open>any\<close>. A value is therefore one of the JSON
  shapes, with \<^verbatim>\<open>undefined\<close> added for absent fields. Numbers are the integer
  ones; text is a list of characters and \<open>length\<close> counts them. An object is the list
  of its own entries in the order \<^verbatim>\<open>Object.entries\<close> enumerates them; a lookup
  takes the first entry of a name. Parsed JSON holds no functions, and the names the code
  reads are fixed data names, none of them a member of a built-in prototype except
  \<^verbatim>\<open>length\<close>.
\<close>

datatype js =
    JUndefined
  | JNull
  | JBool bool
  | JNum int
  | JStr string
  | JArr "js list"
  | JObj "(string \<times> js) list"

datatype error =
    TypeError
  | TransportError string
  | WriteError string

fun nullish :: "js \<Rightarrow> bool" where
  "nullish JUndefined = True"
| "nullish JNull = True"
| "nullish _ = False"

text \<open>ToBoolean: what \<^verbatim>\<open>if (v)\<close>, \<^verbatim>\<open>v && w\<close> and \<^verbatim>\<open>v || w\<close> test.\<close>

fun truthy :: "js \<Rightarrow> bool" where
  "truthy JUndefined = False"
| "truthy JNull = False"
| "truthy (JBool b) = b"
| "truthy (JNum n) = (n \<noteq> 0)"
| "truthy (JStr s) = (s \<noteq> [])"
| "truthy (JArr _) = True"
| "truthy (JObj _) = True"

definition js_or :: "js \<Rightarrow> js \<Rightarrow> js" where
  "js_or a b = (if truthy a then a else b)"

text \<open>\<^verbatim>\<open>x.k\<close> on a receiver that is neither \<^verbatim>\<open>null\<close> nor \<^verbatim>\<open>undefined\<close>.\<close>

fun js_prop :: "js \<Rightarrow> string \<Rightarrow> js" where
  "js_prop (JObj kvs) k = (case map_of kvs k of None \<Rightarrow> JUndefined | Some v \<Rightarrow> v)"
| "js_prop (JArr xs) k = (if k = ''length'' then JNum (int (length xs)) else JUndefined)"
| "js_prop (JStr s) k = (if k = ''length'' then JNum (int (length s)) else JUndefined)"
| "js_prop _ k = JUndefined"

text \<open>\<^verbatim>\<open>x.k\<close>: a TypeError on \<^verbatim>\<open>null\<close> and \<^verbatim>\<open>undefined\<close>.\<close>

definition get :: "js \<Rightarrow> string \<Rightarrow> error + js" where
  "get x k = (if nullish x then Inl TypeError else Inr (js_prop x k))"

text \<open>\<^verbatim>\<open>x?.k\<close>.\<close>

definition opt_js_prop :: "js \<Rightarrow> string \<Rightarrow> js" where
  "opt_js_prop x k = (if nullish x then JUndefined else js_prop x k)"

subsection \<open>Text\<close>

text \<open>
  Decimal text of a number, as \<^verbatim>\<open>String(n)\<close> and template literals give it for
  the integers.
\<close>

function show_nat :: "nat \<Rightarrow> string" where
  "show_nat n =
     (if n < 10 then [''0123456789'' ! n]
      else show_nat (n div 10) @ [''0123456789'' ! (n mod 10)])"
  by pat_completeness auto
termination
  by (relation "measure id") auto

declare show_nat.simps [simp del]

definition show_int :: "int \<Rightarrow> string" where
  "show_int i = (if i < 0 then CHR ''-'' # show_nat (nat (- i)) else show_nat (nat i))"

text \<open>
  White space is the ASCII part of what \<^verbatim>\<open>trim\<close> removes: space, tab, line
  feed, vertical tab, form feed and carriage return.
\<close>

definition is_space :: "char \<Rightarrow> bool" where
  "is_space c = (c \<in> {CHR '' '', CHR 0x09, CHR 0x0A, CHR 0x0B, CHR 0x0C, CHR 0x0D})"

text \<open>\<^verbatim>\<open>String.prototype.trim\<close>.\<close>

definition trim :: "string \<Rightarrow> string" where
  "trim s = rev (dropWhile is_space (rev (dropWhile is_space s)))"

fun intercalate :: "string \<Rightarrow> string list \<Rightarrow> string" where
  "intercalate sep [] = []"
| "intercalate sep [s] = s"
| "intercalate sep (s # t # ss) = s @ sep @ intercalate sep (t # ss)"

text \<open>
  \<^verbatim>\<open>String(v)\<close> and \<^verbatim>\<open>v.toString()\<close>. An array is joined with commas, its
  \<^verbatim>\<open>null\<close> and \<^verbatim>\<open>undefined\<close> elements as empty text. An object is
  \<^verbatim>\<open>[object Object]\<close>, unless it has an entry named \<^verbatim>\<open>toString\<close>: parsed
  JSON holds no function, so the conversion finds nothing to call and raises.
\<close>

fun js_to_string :: "js \<Rightarrow> error + string"
  and elem_strings :: "js list \<Rightarrow> error + string list" where
  "js_to_string JUndefined = Inr ''undefined''"
| "js_to_string JNull = Inr ''null''"
| "js_to_string (JBool b) = Inr (if b then ''true'' else ''false'')"
| "js_to_string (JNum n) = Inr (show_int n)"
| "js_to_string (JStr s) = Inr s"
| "js_to_string (JArr xs) =
     (case elem_strings xs of Inl e \<Rightarrow> Inl e | Inr ss \<Rightarrow> Inr (intercalate '','' ss))"
| "js_to_string (JObj kvs) =
     (if ''toString'' \<in> fst ` set kvs then Inl TypeError else Inr ''[object Object]'')"
| "elem_strings [] = Inr []"
| "elem_strings (x # xs) =
     (case (if nullish x then Inr [] else js_to_string x) of
        Inl e \<Rightarrow> Inl e
      | Inr s \<Rightarrow> (case elem_strings xs of Inl e \<Rightarrow> Inl e | Inr ss \<Rightarrow> Inr (s # ss)))"

text \<open>\<^verbatim>\<open>xs.join(sep)\<close> on an array.\<close>

definition js_join :: "string \<Rightarrow> js list \<Rightarrow> error + string" where
  "js_join sep xs =
     (case elem_strings xs of Inl e \<Rightarrow> Inl e | Inr ss \<Rightarrow> Inr (intercalate sep ss))"

text \<open>\<^verbatim>\<open>xs.map(f)\<close> on an array: the first exception of \<open>f\<close> ends it.\<close>

fun js_map :: "(js \<Rightarrow> error + js) \<Rightarrow> js list \<Rightarrow> error + js list" where
  "js_map f [] = Inr []"
| "js_map f (x # xs) =
     (case f x of
        Inl e \<Rightarrow> Inl e
      | Inr v \<Rightarrow> (case js_map f xs of Inl e \<Rightarrow> Inl e | Inr vs \<Rightarrow> Inr (v # vs)))"

text \<open>
  \<^verbatim>\<open>a?.map(f).join(sep)\<close>: \<^verbatim>\<open>undefined\<close> when \<open>a\<close> is \<^verbatim>\<open>null\<close> or
  \<^verbatim>\<open>undefined\<close> (the whole chain is skipped); a TypeError when \<open>a\<close> is any other
  value than an array, which has no \<^verbatim>\<open>map\<close> to call.
\<close>

definition map_join :: "js \<Rightarrow> (js \<Rightarrow> error + js) \<Rightarrow> string \<Rightarrow> error + js" where
  "map_join a f sep =
     (if nullish a then Inr JUndefined
      else case a of
        JArr xs \<Rightarrow>
          (case js_map f xs of
             Inl e \<Rightarrow> Inl e
           | Inr vs \<Rightarrow> (case js_join sep vs of Inl e \<Rightarrow> Inl e | Inr s \<Rightarrow> Inr (JStr s)))
      | _ \<Rightarrow> Inl TypeError)"

text \<open>\<^verbatim>\<open>v.trim()\<close>: only text has the method.\<close>

definition js_trim :: "js \<Rightarrow> error + js" where
  "js_trim v = (case v of JStr s \<Rightarrow> Inr (JStr (trim s)) | _ \<Rightarrow> Inl TypeError)"

text \<open>\<^verbatim>\<open>v.trim() || null\<close>.\<close>

definition trim_or_null :: "js \<Rightarrow> error + js" where
  "trim_or_null v = (case js_trim v of Inl e \<Rightarrow> Inl e | Inr t \<Rightarrow> Inr (js_or t JNull))"

text \<open>\<^verbatim>\<open>v?.trim() || null\<close>.\<close>

definition opt_trim_or_null :: "js \<Rightarrow> error + js" where
  "opt_trim_or_null v = (if nullish v then Inr JNull else trim_or_null v)"

section \<open>The property value extractor\<close>

text \<open>
  \<^verbatim>\<open>extractPropertyValue\<close>, lines 327 to 377. The \<^verbatim>\<open>switch\<close> compares
  \<^verbatim>\<open>property.type\<close> with each tag by strict equality. The rollup case maps the
  extractor itself over the aggregated array; \<open>extractItems\<close> is that map. The
  recursion follows the nesting of the payload, which is finite; the limit an engine's
  call stack puts on its depth is not modelled.
\<close>

function extractPropertyValue :: "js \<Rightarrow> error + js"
  and extractItems :: "js list \<Rightarrow> error + js list" where
  "extractPropertyValue property =
     (case get property ''type'' of
        Inl e \<Rightarrow> Inl e
      | Inr t \<Rightarrow>
          if t = JStr ''rich_text'' then
            (case map_join (js_prop property ''rich_text'') (\<lambda>text. get text ''plain_text'') '''' of
               Inl e \<Rightarrow> Inl e
             | Inr richText \<Rightarrow> trim_or_null (js_or richText (JStr '''')))
          else if t = JStr ''number'' then
            Inr (if \<not> nullish (js_prop property ''number'') then js_prop property ''number'' else JNull)
          else if t = JStr ''select'' then
            Inr (js_or (opt_js_prop (js_prop property ''select'') ''name'') JNull)
          else if t = JStr ''multi_select'' then
            (case map_join (js_prop property ''multi_select'') (\<lambda>item. get item ''name'') '', '' of
               Inl e \<Rightarrow> Inl e
             | Inr multiSelect \<Rightarrow> trim_or_null (js_or multiSelect (JStr '''')))
          else if t = JStr ''date'' then
            Inr (js_or (opt_js_prop (js_prop property ''date'') ''start'') JNull)
          else if t = JStr ''checkbox'' then
            Inr (if \<not> nullish (js_prop property ''checkbox'') then js_prop property ''checkbox'' else JNull)
          else if t = JStr ''url'' then opt_trim_or_null (js_prop property ''url'')
          else if t = JStr ''email'' then opt_trim_or_null (js_prop property ''email'')
          else if t = JStr ''phone_number'' then opt_trim_or_null (js_prop property ''phone_number'')
          else if t = JStr ''people'' then
            (case map_join (js_prop property ''people'')
                    (\<lambda>person. case get person ''name'' of
                                 Inl e \<Rightarrow> Inl e
                               | Inr n \<Rightarrow> Inr (js_or n (js_prop person ''id''))) '', '' of
               Inl e \<Rightarrow> Inl e
             | Inr people \<Rightarrow> trim_or_null (js_or people (JStr '''')))
          else if t = JStr ''files'' then
            (case map_join (js_prop property ''files'')
                    (\<lambda>file. case get file ''name'' of
                               Inl e \<Rightarrow> Inl e
                             | Inr n \<Rightarrow>
                                 Inr (js_or (js_or n (opt_js_prop (js_prop file ''file'') ''url''))
                                        (opt_js_prop (js_prop file ''external'') ''url''))) '', '' of
               Inl e \<Rightarrow> Inl e
             | Inr files \<Rightarrow> trim_or_null (js_or files (JStr '''')))
          else if t = JStr ''relation'' then
            (case map_join (js_prop property ''relation'') (\<lambda>rel. get rel ''id'') '', '' of
               Inl e \<Rightarrow> Inl e
             | Inr relations \<Rightarrow> trim_or_null (js_or relations (JStr '''')))
          else if t = JStr ''formula'' then
            extractPropertyValue (js_prop property ''formula'')
          else if t = JStr ''rollup'' then
            (case (let a = opt_js_prop (js_prop property ''rollup'') ''array'' in
                   if nullish a then Inr JUndefined
                   else case a of
                     JArr items \<Rightarrow>
                       (case extractItems items of
                          Inl e \<Rightarrow> Inl e
                        | Inr vs \<Rightarrow>
                            (case js_join '', '' vs of Inl e \<Rightarrow> Inl e | Inr s \<Rightarrow> Inr (JStr s)))
                   | _ \<Rightarrow> Inl TypeError) of
               Inl e \<Rightarrow> Inl e
             | Inr rollup \<Rightarrow> trim_or_null (js_or rollup (JStr '''')))
          else Inr JNull)"
| "extractItems [] = Inr []"
| "extractItems (item # items) =
     (case extractPropertyValue item of
        Inl e \<Rightarrow> Inl e
      | Inr v \<Rightarrow> (case extractItems items of Inl e \<Rightarrow> Inl e | Inr vs \<Rightarrow> Inr (v # vs)))"
  by pat_completeness auto

termination
proof (relation "measure (case_sum size (size_list size))", goal_cases)
  have obj: "size (js_prop (JObj kvs) k) < size (JObj kvs)" for kvs k
    by (induction kvs) (auto split: option.splits)
  have le: "size (js_prop x k) \<le> size x" for x k
    using obj[of _ k] by (cases x) (auto simp: less_imp_le simp del: js_prop.simps(1))
  have tagged: "\<exists>kvs. x = JObj kvs" if "get x ''type'' = Inr t" "t = JStr s" for x t s
    using that by (cases x) (auto simp: get_def split: if_splits)
  {
    case 1
    show ?case by simp
  next
    case (2 property t)
    note tagged[OF 2(1) 2(14)]
    then obtain kvs where p: "property = JObj kvs" ..
    show ?case unfolding p using obj[of kvs "''formula''"] by simp
  next
    case (3 property t a items)
    note tagged[OF 3(1) 3(15)]
    then obtain kvs where p: "property = JObj kvs" ..
    have "size a \<le> size (js_prop property ''rollup'')"
      using 3(16) le[of "js_prop property ''rollup''" "''array''"]
      by (simp add: opt_js_prop_def split: if_splits)
    also have "\<dots> < size property"
      using obj[of kvs "''rollup''"] p by simp
    finally have "size a < size property" .
    moreover have "size_list size items < size a"
      using 3(18) by simp
    ultimately show ?case by simp
  next
    case (4 item items)
    then show ?case by simp
  next
    case (5 item items v)
    then show ?case by simp
  }
qed

declare extractPropertyValue.simps [simp del]

section \<open>Databases and pages\<close>

text \<open>The interfaces \<^verbatim>\<open>NotionDatabase\<close> and \<^verbatim>\<open>NotionPage\<close>, lines 5 to 16.\<close>

record NotionDatabase =
  db_id :: string
  db_title :: string
  db_properties :: "string list"

record NotionPage =
  page_id :: string
  properties :: "(string \<times> js) list"
  created_time :: string
  last_edited_time :: string

text \<open>
  \<^verbatim>\<open>databaseDetails\<close> is the body of the database endpoint; the code reads only its
  \<^verbatim>\<open>properties\<close> object, the schema: property name to a description with a
  \<^verbatim>\<open>type\<close> tag.
\<close>

record DatabaseDetails =
  schema :: "(string \<times> js) list"

record Folder =
  path :: string

abbreviation nl :: char where
  "nl \<equiv> CHR 0x0A"

abbreviation dquote :: char where
  "dquote \<equiv> CHR 0x22"

abbreviation backslash :: char where
  "backslash \<equiv> CHR 0x5C"

section \<open>The document serializer\<close>

subsection \<open>Title resolution, lines 270 to 280\<close>

text \<open>
  \<^verbatim>\<open>Object.keys(databaseDetails.properties).find(key => databaseDetails.properties[key].type === 'title')\<close>:
  the first name whose description has the tag; reading \<^verbatim>\<open>.type\<close> of a
  \<^verbatim>\<open>null\<close> description raises.
\<close>

fun find_title :: "(string \<times> js) list \<Rightarrow> string list \<Rightarrow> error + string option" where
  "find_title sch [] = Inr None"
| "find_title sch (key # keys) =
     (case get (js_prop (JObj sch) key) ''type'' of
        Inl e \<Rightarrow> Inl e
      | Inr t \<Rightarrow> if t = JStr ''title'' then Inr (Some key) else find_title sch keys)"

definition titleProperty :: "DatabaseDetails \<Rightarrow> error + string option" where
  "titleProperty databaseDetails =
     find_title (schema databaseDetails) (map fst (schema databaseDetails))"

text \<open>
  \<^verbatim>\<open>v > 0\<close> for any value: a number is compared as it is, \<^verbatim>\<open>true\<close> is 1,
  \<^verbatim>\<open>null\<close> is 0 and \<^verbatim>\<open>undefined\<close> is NaN; text, and an array or object
  through its text, is read as a number. That reading is the language's numeric-literal
  grammar over floating point, which is not modelled: \<open>positive_text s\<close> is taken as a
  parameter and stands for "the text \<open>s\<close> reads as a number greater than 0".
\<close>

fun js_gt_zero :: "(string \<Rightarrow> bool) \<Rightarrow> js \<Rightarrow> error + bool" where
  "js_gt_zero positive_text JUndefined = Inr False"
| "js_gt_zero positive_text JNull = Inr False"
| "js_gt_zero positive_text (JBool b) = Inr b"
| "js_gt_zero positive_text (JNum n) = Inr (0 < n)"
| "js_gt_zero positive_text (JStr s) = Inr (positive_text s)"
| "js_gt_zero positive_text v =
     (case js_to_string v of Inl e \<Rightarrow> Inl e | Inr s \<Rightarrow> Inr (positive_text s))"

text \<open>
  Lines 274 to 280. \<^verbatim>\<open>if (titleProperty && page.properties[titleProperty])\<close> tests
  the name itself for truth (the empty name is false) and then the page's value; the
  inner test reads \<^verbatim>\<open>title\<close> and its \<^verbatim>\<open>length\<close>; the runs are mapped to
  their \<^verbatim>\<open>plain_text\<close> and joined with the empty separator.
\<close>

definition resolveTitle ::
  "(string \<Rightarrow> bool) \<Rightarrow> NotionPage \<Rightarrow> DatabaseDetails \<Rightarrow> error + string" where
  "resolveTitle positive_text page databaseDetails =
     (case titleProperty databaseDetails of
        Inl e \<Rightarrow> Inl e
      | Inr None \<Rightarrow> Inr ''Untitled''
      | Inr (Some key) \<Rightarrow>
          if key \<noteq> [] \<and> truthy (js_prop (JObj (properties page)) key) then
            (let titleValue = js_prop (JObj (properties page)) key;
                 runs = js_prop titleValue ''title''
             in if truthy runs then
                  (case js_gt_zero positive_text (js_prop runs ''length'') of
                     Inl e \<Rightarrow> Inl e
                   | Inr False \<Rightarrow> Inr ''Untitled''
                   | Inr True \<Rightarrow>
                       (case map_join runs (\<lambda>t. get t ''plain_text'') [] of
                          Inl e \<Rightarrow> Inl e
                        | Inr joined \<Rightarrow> js_to_string joined))
                else Inr ''Untitled'')
          else Inr ''Untitled'')"

subsection \<open>Frontmatter, lines 283 to 304\<close>

text \<open>\<^verbatim>\<open>String(value).replace(/\n/g, ' ').replace(/"/g, '\\"')\<close>.\<close>

definition cleanValue :: "string \<Rightarrow> string" where
  "cleanValue s =
     concat (map (\<lambda>c. if c = dquote then [backslash, dquote] else [c])
                 (map (\<lambda>c. if c = nl then CHR '' '' else c) s))"

text \<open>The test of line 295, on the cleaned text.\<close>

definition needs_quotes :: "string \<Rightarrow> bool" where
  "needs_quotes cv = (CHR '':'' \<in> set cv \<or> nl \<in> set cv \<or> 100 < length cv)"

text \<open>
  Lines 291 to 300 for one entry whose name is not the title's: what is appended to the
  document, the empty text when the test of line 292 fails.
\<close>

definition property_line :: "string \<Rightarrow> js \<Rightarrow> error + string" where
  "property_line key property =
     (case extractPropertyValue property of
        Inl e \<Rightarrow> Inl e
      | Inr v \<Rightarrow>
          if truthy v then
            (case js_to_string v of
               Inl e \<Rightarrow> Inl e
             | Inr s \<Rightarrow>
                 if trim s \<noteq> [] then
                   (let cv = cleanValue s
                    in if needs_quotes cv
                       then Inr (key @ '': '' @ [dquote] @ cv @ [dquote] @ [nl])
                       else Inr (key @ '': '' @ cv @ [nl]))
                 else Inr [])
          else Inr [])"

text \<open>The loop of line 289 over \<^verbatim>\<open>Object.entries(page.properties)\<close>.\<close>

fun property_lines :: "DatabaseDetails \<Rightarrow> (string \<times> js) list \<Rightarrow> error + string" where
  "property_lines databaseDetails [] = Inr []"
| "property_lines databaseDetails ((key, property) # entries) =
     (if opt_js_prop (js_prop (JObj (schema databaseDetails)) key) ''type'' \<noteq> JStr ''title'' then
        (case property_line key property of
           Inl e \<Rightarrow> Inl e
         | Inr line \<Rightarrow>
             (case property_lines databaseDetails entries of
                Inl e \<Rightarrow> Inl e
              | Inr rest \<Rightarrow> Inr (line @ rest)))
      else property_lines databaseDetails entries)"

text \<open>The whole document of lines 283 to 307, given the title.\<close>

definition markdown_of :: "NotionPage \<Rightarrow> DatabaseDetails \<Rightarrow> string \<Rightarrow> error + string" where
  "markdown_of page databaseDetails title =
     (case property_lines databaseDetails (properties page) of
        Inl e \<Rightarrow> Inl e
      | Inr lines \<Rightarrow>
          Inr (''---'' @ [nl]
               @ ''notion_id: '' @ page_id page @ [nl]
               @ ''created: '' @ created_time page @ [nl]
               @ ''updated: '' @ last_edited_time page @ [nl]
               @ lines
               @ ''---'' @ [nl, nl]
               @ ''# '' @ title @ [nl, nl]))"

section \<open>The host: context, network and vault\<close>

text \<open>
  What a run does to the outside is kept as a chronological list of events, and the vault
  as a value of any type \<open>'v\<close>. \<^verbatim>\<open>ctx.isCancelled()\<close> reads a flag that somebody
  else flips, so the answer of the n-th poll is the host's \<open>cancelled n\<close>; the body of
  the n-th query of the pages endpoint is the host's \<open>queryResponse n\<close>, an error when
  \<^verbatim>\<open>requestUrl\<close> rejects. \<^verbatim>\<open>sanitizeFilePath\<close>,
  \<^verbatim>\<open>saveAsMarkdownFile\<close>, \<^verbatim>\<open>getOutputFolder\<close> (inherited from
  \<^verbatim>\<open>FormatImporter\<close>) and \<^verbatim>\<open>vault.create\<close> are not part of the file and are
  parameters as well.
\<close>

datatype event =
    Status string
  | ReportNoteSuccess string
  | ReportProgress nat nat
  | ReportFailed string error
  | Notice string
  | ConsoleError string error
  | DetailsRequest string
  | QueryRequest string "string option"

record QueryResponse =
  results :: "NotionPage list"
  has_more :: bool
  next_cursor :: "string option"

record 'v world =
  events :: "event list"
  vault :: 'v
  polls :: nat
  queries :: nat

record 'v host =
  cancelled :: "nat \<Rightarrow> bool"
  detailsResponse :: "error + DatabaseDetails"
  queryResponse :: "nat \<Rightarrow> error + QueryResponse"
  outputFolder :: "Folder option"
  sanitizeFilePath :: "string \<Rightarrow> string"
  saveAsMarkdownFile :: "'v \<Rightarrow> Folder \<Rightarrow> string \<Rightarrow> string \<Rightarrow> error + 'v"
  vault_create :: "'v \<Rightarrow> string \<Rightarrow> string \<Rightarrow> error + 'v"
  text_gt_zero :: "string \<Rightarrow> bool"

definition emit :: "event \<Rightarrow> 'v world \<Rightarrow> 'v world" where
  "emit e w = w\<lparr>events := events w @ [e]\<rparr>"

definition isCancelled :: "'v host \<Rightarrow> 'v world \<Rightarrow> bool \<times> 'v world" where
  "isCancelled h w = (cancelled h (polls w), w\<lparr>polls := Suc (polls w)\<rparr>)"

text \<open>\<^verbatim>\<open>fetchDatabaseDetails\<close>, lines 223 to 233.\<close>

definition fetchDatabaseDetails ::
  "'v host \<Rightarrow> string \<Rightarrow> 'v world \<Rightarrow> (error + DatabaseDetails) \<times> 'v world" where
  "fetchDatabaseDetails h databaseId w = (detailsResponse h, emit (DetailsRequest databaseId) w)"

text \<open>The \<^verbatim>\<open>requestUrl\<close> call of lines 241 to 255, with the cursor it sends.\<close>

definition requestQuery ::
  "'v host \<Rightarrow> string \<Rightarrow> string option \<Rightarrow> 'v world \<Rightarrow> (error + QueryResponse) \<times> 'v world" where
  "requestQuery h databaseId cursor w =
     (queryResponse h (queries w),
      emit (QueryRequest databaseId cursor) (w\<lparr>queries := Suc (queries w)\<rparr>))"

section \<open>The paginator\<close>

text \<open>
  \<^verbatim>\<open>fetchAllPages\<close>, lines 235 to 265. The loop has no bound of its own: it runs
  as long as the responses say \<^verbatim>\<open>has_more\<close>, so the model is a partial function
  and \<open>None\<close> is a run that never returns. \<^verbatim>\<open>hasMore && !ctx.isCancelled()\<close>
  polls only when \<^verbatim>\<open>hasMore\<close> holds.
\<close>

partial_function (option) fetchLoop ::
  "'v host \<Rightarrow> string \<Rightarrow> NotionPage list \<Rightarrow> bool \<Rightarrow> string option \<Rightarrow> 'v world
     \<Rightarrow> ((error + NotionPage list) \<times> 'v world) option" where
  "fetchLoop h databaseId pages hasMore nextCursor w =
     (if hasMore then
        (case isCancelled h w of
           (c, w1) \<Rightarrow>
             if \<not> c then
               (case requestQuery h databaseId nextCursor w1 of
                  (Inl e, w2) \<Rightarrow> Some (Inl e, w2)
                | (Inr data, w2) \<Rightarrow>
                    fetchLoop h databaseId (pages @ results data) (has_more data) (next_cursor data)
                      (emit (Status (''Fetched '' @ show_nat (length (pages @ results data))
                                      @ '' pages...'')) w2))
             else Some (Inr pages, w1))
      else Some (Inr pages, w))"

definition fetchAllPages ::
  "'v host \<Rightarrow> string \<Rightarrow> 'v world \<Rightarrow> ((error + NotionPage list) \<times> 'v world) option" where
  "fetchAllPages h databaseId w = fetchLoop h databaseId [] True None w"

section \<open>Writing one document\<close>

text \<open>The \<^verbatim>\<open>try\<close> block of \<^verbatim>\<open>convertPageToMarkdown\<close>, lines 268 to 313.\<close>

definition convert_body ::
  "'v host \<Rightarrow> NotionPage \<Rightarrow> Folder \<Rightarrow> DatabaseDetails \<Rightarrow> 'v \<Rightarrow> error + string \<times> 'v" where
  "convert_body h page folder databaseDetails v =
     (case resolveTitle (text_gt_zero h) page databaseDetails of
        Inl e \<Rightarrow> Inl e
      | Inr title \<Rightarrow>
          (case markdown_of page databaseDetails title of
             Inl e \<Rightarrow> Inl e
           | Inr markdown \<Rightarrow>
               (let fileName = sanitizeFilePath h title @ ''.md''
                in case saveAsMarkdownFile h v folder title markdown of
                     Inl e \<Rightarrow> Inl e
                   | Inr v' \<Rightarrow> Inr (fileName, v'))))"

text \<open>
  With its \<^verbatim>\<open>catch\<close>, lines 314 to 317: the error goes to \<^verbatim>\<open>console.error\<close>
  and the result is \<^verbatim>\<open>null\<close>.
\<close>

definition convertPageToMarkdown ::
  "'v host \<Rightarrow> NotionPage \<Rightarrow> Folder \<Rightarrow> DatabaseDetails \<Rightarrow> 'v world \<Rightarrow> string option \<times> 'v world" where
  "convertPageToMarkdown h page folder databaseDetails w =
     (case convert_body h page folder databaseDetails (vault w) of
        Inl e \<Rightarrow> (None, emit (ConsoleError ''Error converting page:'' e) w)
      | Inr (fileName, v') \<Rightarrow> (Some fileName, w\<lparr>vault := v'\<rparr>))"

section \<open>The base file\<close>

text \<open>\<^verbatim>\<open>actualProperties.add(key)\<close> on a Set, which keeps the order of first insertion.\<close>

definition set_add :: "string list \<Rightarrow> string \<Rightarrow> string list" where
  "set_add acc key = (if key \<in> set acc then acc else acc @ [key])"

text \<open>The inner loop of lines 398 to 408, over the entries of one page.\<close>

fun page_actual ::
  "DatabaseDetails \<Rightarrow> (string \<times> js) list \<Rightarrow> string list \<Rightarrow> error + string list" where
  "page_actual databaseDetails [] acc = Inr acc"
| "page_actual databaseDetails ((key, property) # entries) acc =
     (if opt_js_prop (js_prop (JObj (schema databaseDetails)) key) ''type'' \<noteq> JStr ''title'' then
        (case extractPropertyValue property of
           Inl e \<Rightarrow> Inl e
         | Inr v \<Rightarrow>
             page_actual databaseDetails entries
               (if v \<noteq> JNull \<and> v \<noteq> JUndefined \<and> v \<noteq> JStr [] \<and> v \<noteq> JBool False
                then set_add acc key else acc))
      else page_actual databaseDetails entries acc)"

text \<open>The outer loop of lines 397 to 409.\<close>

fun actual_loop ::
  "DatabaseDetails \<Rightarrow> NotionPage list \<Rightarrow> string list \<Rightarrow> error + string list" where
  "actual_loop databaseDetails [] acc = Inr acc"
| "actual_loop databaseDetails (page # pages) acc =
     (case page_actual databaseDetails (properties page) acc of
        Inl e \<Rightarrow> Inl e
      | Inr acc' \<Rightarrow> actual_loop databaseDetails pages acc')"

text \<open>\<^verbatim>\<open>propertiesWithData\<close>, line 411.\<close>

definition propertiesWithData :: "DatabaseDetails \<Rightarrow> NotionPage list \<Rightarrow> error + string list" where
  "propertiesWithData databaseDetails pages = actual_loop databaseDetails pages []"

definition line :: "string \<Rightarrow> string" where
  "line s = s @ [nl]"

text \<open>The text built in lines 414 to 465.\<close>

definition baseContent :: "string \<Rightarrow> string list \<Rightarrow> string" where
  "baseContent databaseTitle props =
     line (''# Obsidian Base file for '' @ databaseTitle)
     @ line ''# Generated from Notion API'' @ [nl]
     @ line ''properties:''
     @ concat (map (\<lambda>propName.
                 line (''  '' @ propName @ '':'')
                 @ line (''    displayName: '' @ [dquote] @ propName @ [dquote])) props)
     @ line ''  notion_id:''
     @ line (''    displayName: '' @ [dquote] @ ''Notion ID'' @ [dquote])
     @ line ''  created:''
     @ line (''    displayName: '' @ [dquote] @ ''Created (Notion)'' @ [dquote])
     @ line ''  updated:''
     @ line (''    displayName: '' @ [dquote] @ ''Updated (Notion)'' @ [dquote]) @ [nl]
     @ line ''views:''
     @ line ''  - type: table''
     @ line (''    name: '' @ [dquote] @ databaseTitle @ '' Table'' @ [dquote])
     @ line ''    limit: 100''
     @ line ''    filters:''
     @ line ''      and:''
     @ line (''        - file.ext == '' @ [dquote] @ ''md'' @ [dquote])
     @ line ''        - notion_id != null''
     @ line ''        - file.inFolder(this.file.folder)''
     @ line ''    order:''
     @ line ''      - file.name''
     @ concat (map (\<lambda>propName. line (''      - '' @ propName)) (take 8 props))
     @ line ''      - created''
     @ line ''      - updated'' @ [nl]
     @ line ''  - type: card''
     @ line (''    name: '' @ [dquote] @ databaseTitle @ '' Cards'' @ [dquote])
     @ line ''    limit: 50'' @ [nl]
     @ line ''# Instructions:''
     @ line ''# 1. This .base file creates native Obsidian database views''
     @ line ''# 2. Requires Obsidian 1.7+ with Bases feature enabled''
     @ line ''# 3. Open this file in Obsidian to see your database''
     @ line ''# 4. You can edit views, filters, and properties as needed''
     @ line ''# 5. See https://help.obsidian.md/bases/syntax for full documentation''"

text \<open>The \<^verbatim>\<open>try\<close> block of \<^verbatim>\<open>createBaseFile\<close>, lines 391 to 473.\<close>

definition base_body ::
  "'v host \<Rightarrow> NotionDatabase \<Rightarrow> DatabaseDetails \<Rightarrow> NotionPage list \<Rightarrow> Folder \<Rightarrow> 'v
     \<Rightarrow> error + string \<times> 'v" where
  "base_body h database databaseDetails pages folder v =
     (case propertiesWithData databaseDetails pages of
        Inl e \<Rightarrow> Inl e
      | Inr props \<Rightarrow>
          (let baseFileName = sanitizeFilePath h (db_title database) @ ''.base'';
               baseFilePath = path folder @ ''/'' @ baseFileName
           in case vault_create h v baseFilePath (baseContent (db_title database) props) of
                Inl e \<Rightarrow> Inl e
              | Inr v' \<Rightarrow> Inr (baseFileName, v')))"

definition createBaseFile ::
  "'v host \<Rightarrow> NotionDatabase \<Rightarrow> DatabaseDetails \<Rightarrow> NotionPage list \<Rightarrow> Folder \<Rightarrow> 'v world
     \<Rightarrow> string option \<times> 'v world" where
  "createBaseFile h database databaseDetails pages folder w =
     (case base_body h database databaseDetails pages folder (vault w) of
        Inl e \<Rightarrow> (None, emit (ConsoleError ''Error creating base file:'' e) w)
      | Inr (baseFileName, v') \<Rightarrow> (Some baseFileName, w\<lparr>vault := v'\<rparr>))"

section \<open>The import run\<close>

text \<open>The fields of \<^verbatim>\<open>NotionAPIImporter\<close>, lines 19 to 22.\<close>

record importer =
  notionToken :: string
  selectedDatabaseId :: string
  databases :: "NotionDatabase list"
  createBaseFiles :: bool

text \<open>
  The loop of lines 189 to 200 from index \<open>i\<close> on, \<open>totalCount\<close> being
  \<^verbatim>\<open>pages.length + (this.createBaseFiles ? 1 : 0)\<close>. The result is \<open>None\<close> when
  the \<^verbatim>\<open>return\<close> of line 190 leaves \<^verbatim>\<open>import\<close>, else the names collected.
  \<^verbatim>\<open>if (fileName)\<close> is false for \<^verbatim>\<open>null\<close> and for the empty text.
\<close>

fun convertPages ::
  "'v host \<Rightarrow> Folder \<Rightarrow> DatabaseDetails \<Rightarrow> nat \<Rightarrow> nat \<Rightarrow> NotionPage list \<Rightarrow> string list
     \<Rightarrow> 'v world \<Rightarrow> string list option \<times> 'v world" where
  "convertPages h folder databaseDetails totalCount i [] convertedFiles w = (Some convertedFiles, w)"
| "convertPages h folder databaseDetails totalCount i (page # rest) convertedFiles w =
     (case isCancelled h w of
        (c, w1) \<Rightarrow>
          if c then (None, w1)
          else
            (case convertPageToMarkdown h page folder databaseDetails w1 of
               (fileName, w2) \<Rightarrow>
                 (case fileName of
                    None \<Rightarrow>
                      convertPages h folder databaseDetails totalCount (Suc i) rest convertedFiles
                        (emit (ReportProgress (Suc i) totalCount) w2)
                  | Some f \<Rightarrow>
                      if f \<noteq> [] then
                        convertPages h folder databaseDetails totalCount (Suc i) rest (convertedFiles @ [f])
                          (emit (ReportProgress (Suc i) totalCount) (emit (ReportNoteSuccess f) w2))
                      else
                        convertPages h folder databaseDetails totalCount (Suc i) rest convertedFiles
                          (emit (ReportProgress (Suc i) totalCount) w2))))"

text \<open>Lines 202 to 211: the base file, when asked for and not cancelled.\<close>

definition base_step ::
  "'v host \<Rightarrow> importer \<Rightarrow> NotionDatabase \<Rightarrow> DatabaseDetails \<Rightarrow> NotionPage list \<Rightarrow> Folder
     \<Rightarrow> string list \<Rightarrow> 'v world \<Rightarrow> string list \<times> 'v world" where
  "base_step h imp selectedDatabase databaseDetails pages folder convertedFiles w =
     (if createBaseFiles imp then
        (case isCancelled h w of
           (c, w1) \<Rightarrow>
             if \<not> c then
               (case createBaseFile h selectedDatabase databaseDetails pages folder
                       (emit (Status ''Creating Obsidian Base file...'') w1) of
                  (baseFileName, w2) \<Rightarrow>
                    (case baseFileName of
                       None \<Rightarrow>
                         (convertedFiles,
                          emit (ReportProgress (Suc (length pages)) (Suc (length pages))) w2)
                     | Some f \<Rightarrow>
                         if f \<noteq> [] then
                           (convertedFiles @ [f],
                            emit (ReportProgress (Suc (length pages)) (Suc (length pages)))
                              (emit (ReportNoteSuccess f) w2))
                         else
                           (convertedFiles,
                            emit (ReportProgress (Suc (length pages)) (Suc (length pages))) w2)))
             else (convertedFiles, w1))
      else (convertedFiles, w))"

text \<open>Lines 182 to 214, once the pages are there.\<close>

definition convert_all ::
  "'v host \<Rightarrow> importer \<Rightarrow> NotionDatabase \<Rightarrow> DatabaseDetails \<Rightarrow> NotionPage list \<Rightarrow> Folder
     \<Rightarrow> 'v world \<Rightarrow> 'v world" where
  "convert_all h imp selectedDatabase databaseDetails pages folder w =
     (case isCancelled h w of
        (c, w1) \<Rightarrow>
          if c then w1
          else
            (case convertPages h folder databaseDetails
                    (length pages + (if createBaseFiles imp then 1 else 0)) 0 pages []
                    (emit (Status ''Converting pages to markdown...'') w1) of
               (None, w2) \<Rightarrow> w2
             | (Some convertedFiles, w2) \<Rightarrow>
                 (case base_step h imp selectedDatabase databaseDetails pages folder
                         convertedFiles w2 of
                    (files, w3) \<Rightarrow>
                      emit (Notice (''Successfully imported '' @ show_nat (length files)
                                     @ '' files from '' @ db_title selectedDatabase))
                        (emit (Status ''Import completed successfully!'') w3))))"

text \<open>
  The \<^verbatim>\<open>try\<close> block of \<^verbatim>\<open>import\<close>, lines 171 to 214: \<open>Some e\<close> is the
  exception that leaves it, \<open>None\<close> a normal end or a \<^verbatim>\<open>return\<close>.
\<close>

definition import_body ::
  "'v host \<Rightarrow> importer \<Rightarrow> NotionDatabase \<Rightarrow> Folder \<Rightarrow> 'v world
     \<Rightarrow> (error option \<times> 'v world) option" where
  "import_body h imp selectedDatabase folder w =
     (case fetchDatabaseDetails h (selectedDatabaseId imp)
             (emit (Status ''Fetching database details...'') w) of
        (Inl e, w1) \<Rightarrow> Some (Some e, w1)
      | (Inr databaseDetails, w1) \<Rightarrow>
          (case isCancelled h w1 of
             (c, w2) \<Rightarrow>
               if c then Some (None, w2)
               else
                 (case fetchAllPages h (selectedDatabaseId imp)
                         (emit (Status ''Fetching database pages...'') w2) of
                    None \<Rightarrow> None
                  | Some (Inl e, w3) \<Rightarrow> Some (Some e, w3)
                  | Some (Inr pages, w3) \<Rightarrow>
                      Some (None,
                            convert_all h imp selectedDatabase databaseDetails pages folder w3))))"

text \<open>\<^verbatim>\<open>import\<close>, lines 147 to 221, with the \<^verbatim>\<open>catch\<close> of lines 216 to 220.\<close>

definition import_run :: "'v host \<Rightarrow> importer \<Rightarrow> 'v world \<Rightarrow> 'v world option" where
  "import_run h imp w =
     (if notionToken imp = [] then
        Some (emit (Notice ''Please enter your Notion Integration Token.'') w)
      else if selectedDatabaseId imp = [] then
        Some (emit (Notice ''Please select a database to import.'') w)
      else
        (case outputFolder h of
           None \<Rightarrow> Some (emit (Notice ''Please select a location to export to.'') w)
         | Some folder \<Rightarrow>
             (case find (\<lambda>db. db_id db = selectedDatabaseId imp) (databases imp) of
                None \<Rightarrow> Some (emit (Notice ''Selected database not found.'') w)
              | Some selectedDatabase \<Rightarrow>
                  (case import_body h imp selectedDatabase folder w of
                     None \<Rightarrow> None
                   | Some (None, w') \<Rightarrow> Some w'
                   | Some (Some e, w') \<Rightarrow>
                       Some (emit (Notice ''Import failed. Check the console for details.'')
                              (emit (ReportFailed (db_title selectedDatabase) e)
                                (emit (ConsoleError ''Import failed:'' e) w')))))))"

section \<open>Payloads of the expected shape\<close>

text \<open>
  The extractor reads a payload without checking it. The shape it relies on, tag by tag:
  a sequence is absent or an array of objects whose read field is a scalar; a text field
  is absent or text; a formula holds a payload of the expected shape, a rollup an array
  of them. Any value other than \<^verbatim>\<open>null\<close> and \<^verbatim>\<open>undefined\<close> whose tag is
  none of the fourteen the \<^verbatim>\<open>switch\<close> lists is accepted as it is.
\<close>

definition scalar :: "js \<Rightarrow> bool" where
  "scalar v = (case v of JArr _ \<Rightarrow> False | JObj _ \<Rightarrow> False | _ \<Rightarrow> True)"

definition list_of :: "(js \<Rightarrow> bool) \<Rightarrow> js \<Rightarrow> bool" where
  "list_of P v =
     (case v of JUndefined \<Rightarrow> True | JNull \<Rightarrow> True | JArr xs \<Rightarrow> list_all P xs | _ \<Rightarrow> False)"

definition text_or_absent :: "js \<Rightarrow> bool" where
  "text_or_absent v =
     (case v of JUndefined \<Rightarrow> True | JNull \<Rightarrow> True | JStr _ \<Rightarrow> True | _ \<Rightarrow> False)"

definition handled_tags :: "string list" where
  "handled_tags =
     [''rich_text'', ''number'', ''select'', ''multi_select'', ''date'', ''checkbox'', ''url'',
      ''email'', ''phone_number'', ''people'', ''files'', ''relation'', ''formula'', ''rollup'']"

inductive well_formed :: "js \<Rightarrow> bool" where
  wf_other:
    "\<not> nullish p \<Longrightarrow> js_prop p ''type'' \<notin> JStr ` set handled_tags \<Longrightarrow> well_formed p"
| wf_rich_text:
    "js_prop p ''type'' = JStr ''rich_text'' \<Longrightarrow>
     list_of (\<lambda>t. \<not> nullish t \<and> scalar (js_prop t ''plain_text'')) (js_prop p ''rich_text'') \<Longrightarrow>
     well_formed p"
| wf_number:
    "js_prop p ''type'' = JStr ''number'' \<Longrightarrow> scalar (js_prop p ''number'') \<Longrightarrow> well_formed p"
| wf_select:
    "js_prop p ''type'' = JStr ''select'' \<Longrightarrow>
     scalar (opt_js_prop (js_prop p ''select'') ''name'') \<Longrightarrow> well_formed p"
| wf_multi_select:
    "js_prop p ''type'' = JStr ''multi_select'' \<Longrightarrow>
     list_of (\<lambda>i. \<not> nullish i \<and> scalar (js_prop i ''name'')) (js_prop p ''multi_select'') \<Longrightarrow>
     well_formed p"
| wf_date:
    "js_prop p ''type'' = JStr ''date'' \<Longrightarrow>
     scalar (opt_js_prop (js_prop p ''date'') ''start'') \<Longrightarrow> well_formed p"
| wf_checkbox:
    "js_prop p ''type'' = JStr ''checkbox'' \<Longrightarrow> scalar (js_prop p ''checkbox'') \<Longrightarrow>
     well_formed p"
| wf_url:
    "js_prop p ''type'' = JStr ''url'' \<Longrightarrow> text_or_absent (js_prop p ''url'') \<Longrightarrow> well_formed p"
| wf_email:
    "js_prop p ''type'' = JStr ''email'' \<Longrightarrow> text_or_absent (js_prop p ''email'') \<Longrightarrow>
     well_formed p"
| wf_phone_number:
    "js_prop p ''type'' = JStr ''phone_number'' \<Longrightarrow>
     text_or_absent (js_prop p ''phone_number'') \<Longrightarrow> well_formed p"
| wf_people:
    "js_prop p ''type'' = JStr ''people'' \<Longrightarrow>
     list_of (\<lambda>x. \<not> nullish x \<and> scalar (js_prop x ''name'') \<and> scalar (js_prop x ''id''))
       (js_prop p ''people'') \<Longrightarrow>
     well_formed p"
| wf_files:
    "js_prop p ''type'' = JStr ''files'' \<Longrightarrow>
     list_of (\<lambda>f. \<not> nullish f \<and> scalar (js_prop f ''name'')
                  \<and> scalar (opt_js_prop (js_prop f ''file'') ''url'')
                  \<and> scalar (opt_js_prop (js_prop f ''external'') ''url''))
       (js_prop p ''files'') \<Longrightarrow>
     well_formed p"
| wf_relation:
    "js_prop p ''type'' = JStr ''relation'' \<Longrightarrow>
     list_of (\<lambda>r. \<not> nullish r \<and> scalar (js_prop r ''id'')) (js_prop p ''relation'') \<Longrightarrow>
     well_formed p"
| wf_formula:
    "js_prop p ''type'' = JStr ''formula'' \<Longrightarrow> well_formed (js_prop p ''formula'') \<Longrightarrow>
     well_formed p"
| wf_rollup_absent:
    "js_prop p ''type'' = JStr ''rollup'' \<Longrightarrow>
     nullish (opt_js_prop (js_prop p ''rollup'') ''array'') \<Longrightarrow> well_formed p"
| wf_rollup:
    "js_prop p ''type'' = JStr ''rollup'' \<Longrightarrow>
     opt_js_prop (js_prop p ''rollup'') ''array'' = JArr items \<Longrightarrow>
     \<forall>item\<in>set items. well_formed item \<Longrightarrow> well_formed p"

section \<open>Notions used in the statements\<close>

text \<open>The test of line 404.\<close>

definition meaningful :: "js \<Rightarrow> bool" where
  "meaningful v = (v \<noteq> JNull \<and> v \<noteq> JUndefined \<and> v \<noteq> JStr [] \<and> v \<noteq> JBool False)"

text \<open>The test of lines 290 and 400, negated: the schema tags the name as the title.\<close>

definition is_title :: "DatabaseDetails \<Rightarrow> string \<Rightarrow> bool" where
  "is_title databaseDetails key =
     (opt_js_prop (js_prop (JObj (schema databaseDetails)) key) ''type'' = JStr ''title'')"

text \<open>
  The \<^verbatim>\<open>title\<close> field of the record's value for the title property \<open>r\<close> that
  \<open>titleProperty\<close> found, \<^verbatim>\<open>undefined\<close> when it found none.
\<close>

definition title_field :: "string option \<Rightarrow> NotionPage \<Rightarrow> js" where
  "title_field r page =
     (case r of
        None \<Rightarrow> JUndefined
      | Some key \<Rightarrow> js_prop (js_prop (JObj (properties page)) key) ''title'')"

text \<open>The cursors of the page queries of a run, in the order they were sent.\<close>

fun requests_of :: "event list \<Rightarrow> string option list" where
  "requests_of [] = []"
| "requests_of (QueryRequest databaseId cursor # es) = cursor # requests_of es"
| "requests_of (_ # es) = requests_of es"

text \<open>The calls of \<^verbatim>\<open>ctx.reportFailed\<close> of a run.\<close>

fun failures_of :: "event list \<Rightarrow> (string \<times> error) list" where
  "failures_of [] = []"
| "failures_of (ReportFailed name e # es) = (name, e) # failures_of es"
| "failures_of (_ # es) = failures_of es"

text \<open>The calls of \<^verbatim>\<open>ctx.reportNoteSuccess\<close> of a run.\<close>

fun successes_of :: "event list \<Rightarrow> string list" where
  "successes_of [] = []"
| "successes_of (ReportNoteSuccess name # es) = name # successes_of es"
| "successes_of (_ # es) = successes_of es"

text \<open>
  Reading a generated base file back. \<open>lines_of\<close> splits a text at its newlines;
  \<open>listed_properties\<close> takes the lines that follow the line \<^verbatim>\<open>properties:\<close> up
  to the first empty line, which come in pairs (a name line, a \<^verbatim>\<open>displayName\<close>
  line), and returns the name of every pair: its name line without the indentation of
  two spaces and without the final colon.
\<close>

fun split_lines :: "string \<Rightarrow> string \<Rightarrow> string list" where
  "split_lines cur [] = [cur]"
| "split_lines cur (c # cs) =
     (if c = nl then cur # split_lines [] cs else split_lines (cur @ [c]) cs)"

definition lines_of :: "string \<Rightarrow> string list" where
  "lines_of s = split_lines [] s"

fun alternate :: "'a list \<Rightarrow> 'a list" where
  "alternate [] = []"
| "alternate [x] = [x]"
| "alternate (x # y # zs) = x # alternate zs"

definition listed_properties :: "string \<Rightarrow> string list" where
  "listed_properties doc =
     map (\<lambda>l. butlast (drop 2 l))
       (alternate (takeWhile (\<lambda>l. l \<noteq> [])
          (tl (dropWhile (\<lambda>l. l \<noteq> ''properties:'') (lines_of doc)))))"

subsection \<open>A sample host\<close>

text \<open>
  One reading of text as a number, for sample runs: a run of decimal digits that are not
  all 0 is greater than 0.
\<close>

definition digits_positive :: "string \<Rightarrow> bool" where
  "digits_positive s =
     (s \<noteq> [] \<and> list_all (\<lambda>c. c \<in> set ''0123456789'') s \<and> list_ex (\<lambda>c. c \<noteq> CHR ''0'') s)"

text \<open>
  A vault that is the list of the files written, with their content. Saving a document
  whose title is \<^verbatim>\<open>Locked\<close> fails.
\<close>

definition sample_save ::
  "(string \<times> string) list \<Rightarrow> Folder \<Rightarrow> string \<Rightarrow> string \<Rightarrow> error + (string \<times> string) list" where
  "sample_save v folder title markdown =
     (if title = ''Locked'' then Inl (WriteError ''Locked'')
      else Inr (v @ [(path folder @ ''/'' @ title @ ''.md'', markdown)]))"

definition sample_create ::
  "(string \<times> string) list \<Rightarrow> string \<Rightarrow> string \<Rightarrow> error + (string \<times> string) list" where
  "sample_create v filePath content = Inr (v @ [(filePath, content)])"

definition sample_schema :: DatabaseDetails where
  "sample_schema =
     \<lparr>schema = [(''Name'', JObj [(''type'', JStr ''title'')]),
                (''count'', JObj [(''type'', JStr ''number'')]),
                (''done'', JObj [(''type'', JStr ''checkbox'')])]\<rparr>"

definition sample_page :: "string \<Rightarrow> string \<Rightarrow> js \<Rightarrow> NotionPage" where
  "sample_page ident name count =
     \<lparr>page_id = ident,
      properties =
        [(''Name'', JObj [(''type'', JStr ''title''),
                          (''title'', JArr [JObj [(''plain_text'', JStr name)]])]),
         (''count'', JObj [(''type'', JStr ''number''), (''number'', count)]),
         (''done'', JObj [(''type'', JStr ''checkbox''), (''checkbox'', JBool False)])],
      created_time = ''2024-01-01'', last_edited_time = ''2024-01-02''\<rparr>"

text \<open>
  The remote database has two pages of one record each; a third query is a transport
  error. Nobody cancels.
\<close>

definition sample_response :: "nat \<Rightarrow> error + QueryResponse" where
  "sample_response n =
     (if n = 0 then
        Inr \<lparr>results = [sample_page ''a'' ''A'' (JNum 0)], has_more = True,
             next_cursor = Some ''c1''\<rparr>
      else if n = 1 then
        Inr \<lparr>results = [sample_page ''b'' ''B'' JNull], has_more = False, next_cursor = None\<rparr>
      else Inl (TransportError ''offline''))"

definition sample_host :: "(string \<times> string) list host" where
  "sample_host =
     \<lparr>cancelled = (\<lambda>n. False),
      detailsResponse = Inr sample_schema,
      queryResponse = sample_response,
      outputFolder = Some \<lparr>path = ''out''\<rparr>,
      sanitizeFilePath = (\<lambda>s. s),
      saveAsMarkdownFile = sample_save,
      vault_create = sample_create,
      text_gt_zero = digits_positive\<rparr>"

text \<open>The same host when the network fails on the second query.\<close>

definition failing_host :: "(string \<times> string) list host" where
  "failing_host =
     sample_host\<lparr>queryResponse :=
       (\<lambda>n. if n = 0 then sample_response 0 else Inl (TransportError ''offline''))\<rparr>"

text \<open>The same host when the user has cancelled before the run polls.\<close>

definition cancelled_host :: "(string \<times> string) list host" where
  "cancelled_host = sample_host\<lparr>cancelled := (\<lambda>n. True)\<rparr>"

definition sample_importer :: importer where
  "sample_importer =
     \<lparr>notionToken = ''secret'', selectedDatabaseId = ''db1'',
      databases = [\<lparr>db_id = ''db1'', db_title = ''Tasks'', db_properties = [''Name'', ''count'', ''done'']\<rparr>],
      createBaseFiles = True\<rparr>"

definition start :: "(string \<times> string) list world" where
  "start = \<lparr>events = [], vault = [], polls = 0, queries = 0\<rparr>"

section \<open>Properties of the extractor\<close>

lemma extractItems_all_null:
  "\<forall>item\<in>set items. extractPropertyValue item = Inr JNull \<Longrightarrow>
   extractItems items = Inr (replicate (length items) JNull)"
  by (induction items) simp_all

lemma elem_strings_nulls: "elem_strings (replicate n JNull) = Inr (replicate n [])"
  by (induction n) simp_all

lemma intercalate_empties:
  "intercalate sep (replicate (Suc n) []) = concat (replicate n sep)"
  by (induction n) simp_all

lemma set_trim: "set (trim s) \<subseteq> set s"
proof -
  have "set (trim s) = set (dropWhile is_space (rev (dropWhile is_space s)))"
    by (simp add: trim_def)
  also have "\<dots> \<subseteq> set (rev (dropWhile is_space s))"
    by (rule set_dropWhileD[THEN subsetI])
  also have "\<dots> \<subseteq> set s"
    using set_dropWhileD[of _ is_space s] by auto
  finally show ?thesis .
qed

lemma trim_starts_nonspace: "\<not> is_space c \<Longrightarrow> trim (c # s) \<noteq> []"
  by (simp add: trim_def dropWhile_append)

text \<open>
  Claim C10. A rollup whose aggregated array has at least two elements, each of which
  extracts to \<^verbatim>\<open>null\<close>, does not extract to \<^verbatim>\<open>null\<close>: \<^verbatim>\<open>join\<close> writes
  every \<^verbatim>\<open>null\<close> element as the empty text and puts \<^verbatim>\<open>', '\<close> between them, so
  the result is a non-empty text made of commas and spaces only (for two elements, a single
  comma once trimmed).
\<close>

theorem rollup_of_nulls_is_separators:
  assumes tag: "get property ''type'' = Inr (JStr ''rollup'')"
    and arr: "opt_js_prop (js_prop property ''rollup'') ''array'' = JArr items"
    and two: "2 \<le> length items"
    and nulls: "\<forall>item\<in>set items. extractPropertyValue item = Inr JNull"
  shows "\<exists>s. extractPropertyValue property = Inr (JStr s) \<and> s \<noteq> []
             \<and> set s \<subseteq> {CHR '','', CHR '' ''}"
proof -
  obtain n where n: "length items = Suc (Suc n)"
    using two by (metis Suc_le_D numeral_2_eq_2 Suc_le_mono)
  define joined where "joined = concat (replicate (Suc n) '', '')"
  have j: "js_join '', '' (replicate (length items) JNull) = Inr joined"
    unfolding js_join_def elem_strings_nulls n
    using intercalate_empties[of "'', ''" "Suc n"] by (simp add: joined_def)
  have ne: "joined \<noteq> []"
    by (simp add: joined_def)
  have "extractPropertyValue property = trim_or_null (JStr joined)"
    by (subst extractPropertyValue.simps)
       (simp add: tag arr extractItems_all_null[OF nulls] j js_or_def ne)
  moreover have "trim joined \<noteq> []"
    unfolding joined_def by (simp add: trim_starts_nonspace is_space_def)
  moreover have "set joined \<subseteq> {CHR '','', CHR '' ''}"
    by (auto simp: joined_def)
  then have "set (trim joined) \<subseteq> {CHR '','', CHR '' ''}"
    using set_trim[of joined] by blast
  ultimately show ?thesis
    by (simp add: trim_or_null_def js_trim_def js_or_def)
qed

theorem rollup_of_nulls_witness:
  "extractPropertyValue (JObj [(''type'', JStr ''unknown'')]) = Inr JNull
   \<and> (\<exists>s. extractPropertyValue
         (JObj [(''type'', JStr ''rollup''),
                (''rollup'', JObj [(''array'', JArr [JObj [(''type'', JStr ''unknown'')],
                                                    JObj [(''type'', JStr ''unknown'')]])])])
        = Inr (JStr s) \<and> s \<noteq> [] \<and> set s \<subseteq> {CHR '','', CHR '' ''})"
proof -
  have u: "extractPropertyValue (JObj [(''type'', JStr ''unknown'')]) = Inr JNull"
    by (simp add: extractPropertyValue.simps get_def)
  show ?thesis
    using u rollup_of_nulls_is_separators
      [of "JObj [(''type'', JStr ''rollup''),
                 (''rollup'', JObj [(''array'', JArr [JObj [(''type'', JStr ''unknown'')],
                                                     JObj [(''type'', JStr ''unknown'')]])])]"
          "[JObj [(''type'', JStr ''unknown'')], JObj [(''type'', JStr ''unknown'')]]"]
    by (simp add: get_def opt_js_prop_def)
qed

lemma js_prop_text_not_nullish: "js_prop p k = JStr s \<Longrightarrow> \<not> nullish p"
  by (cases p) auto

lemma get_tag: "js_prop p ''type'' = JStr s \<Longrightarrow> get p ''type'' = Inr (JStr s)"
  by (cases p) (auto simp: get_def)

lemma scalar_to_string: "scalar v \<Longrightarrow> \<exists>s. js_to_string v = Inr s"
  by (cases v) (auto simp: scalar_def)

lemma scalars_elem_strings: "list_all scalar vs \<Longrightarrow> \<exists>ss. elem_strings vs = Inr ss"
proof (induction vs)
  case Nil
  then show ?case by simp
next
  case (Cons v vs)
  then obtain ss where "elem_strings vs = Inr ss" by auto
  moreover obtain s where "js_to_string v = Inr s"
    using Cons.prems scalar_to_string by auto
  ultimately show ?case by simp
qed

lemma scalars_join: "list_all scalar vs \<Longrightarrow> \<exists>s. js_join sep vs = Inr s"
  using scalars_elem_strings[of vs] by (auto simp: js_join_def)

lemma js_map_scalars:
  "\<forall>x\<in>set xs. \<exists>v. f x = Inr v \<and> scalar v \<Longrightarrow> \<exists>vs. js_map f xs = Inr vs \<and> list_all scalar vs"
  by (induction xs) auto

lemma extractItems_scalars:
  "\<forall>x\<in>set xs. \<exists>v. extractPropertyValue x = Inr v \<and> scalar v \<Longrightarrow>
   \<exists>vs. extractItems xs = Inr vs \<and> list_all scalar vs"
  by (induction xs) auto

lemma map_join_list_of:
  assumes "list_of P a" and "\<And>x. P x \<Longrightarrow> \<exists>v. f x = Inr v \<and> scalar v"
  shows "map_join a f sep = Inr JUndefined \<or> (\<exists>s. map_join a f sep = Inr (JStr s))"
proof (cases a)
  case (JArr xs)
  then have "\<forall>x\<in>set xs. \<exists>v. f x = Inr v \<and> scalar v"
    using assms by (auto simp: list_of_def list_all_iff)
  then obtain vs where vs: "js_map f xs = Inr vs" "list_all scalar vs"
    using js_map_scalars by blast
  then obtain s where "js_join sep vs = Inr s"
    using scalars_join by blast
  then show ?thesis
    using vs JArr by (simp add: map_join_def)
qed (use assms(1) in \<open>auto simp: list_of_def map_join_def\<close>)

lemma trim_or_null_joined:
  "r = Inr JUndefined \<or> (\<exists>s. r = Inr (JStr s)) \<Longrightarrow>
   \<exists>v. (case r of Inl e \<Rightarrow> Inl e | Inr x \<Rightarrow> trim_or_null (js_or x (JStr []))) = Inr v \<and> scalar v"
  by (auto simp: trim_or_null_def js_trim_def js_or_def scalar_def)

lemma opt_trim_text_or_absent:
  "text_or_absent u \<Longrightarrow> \<exists>v. opt_trim_or_null u = Inr v \<and> scalar v"
  by (cases u) (auto simp: text_or_absent_def opt_trim_or_null_def trim_or_null_def js_trim_def
      js_or_def scalar_def)

lemma scalar_js_or: "scalar a \<Longrightarrow> scalar b \<Longrightarrow> scalar (js_or a b)"
  by (simp add: js_or_def)

lemma scalar_simps [simp]: "scalar JNull" "scalar JUndefined" "scalar (JStr s)"
  by (simp_all add: scalar_def)

lemma well_formed_extracts_scalar:
  "well_formed p \<Longrightarrow> \<exists>v. extractPropertyValue p = Inr v \<and> scalar v"
proof (induction rule: well_formed.induct)
  case (wf_other p)
  then show ?case
    by (subst extractPropertyValue.simps) (auto simp: get_def handled_tags_def)
next
  case (wf_rich_text p)
  let ?joined = "map_join (js_prop p ''rich_text'') (\<lambda>text. get text ''plain_text'') []"
  have mj: "?joined = Inr JUndefined \<or> (\<exists>s. ?joined = Inr (JStr s))"
    by (rule map_join_list_of[OF wf_rich_text(2)]) (simp add: get_def scalar_js_or)
  show ?case
    using trim_or_null_joined[OF mj]
    by (subst extractPropertyValue.simps) (simp add: get_tag[OF wf_rich_text(1)])
next
  case (wf_number p)
  then show ?case
    by (subst extractPropertyValue.simps) (simp add: get_tag)
next
  case (wf_select p)
  then show ?case
    by (subst extractPropertyValue.simps) (simp add: get_tag scalar_js_or)
next
  case (wf_multi_select p)
  let ?joined = "map_join (js_prop p ''multi_select'') (\<lambda>item. get item ''name'') '', ''"
  have mj: "?joined = Inr JUndefined \<or> (\<exists>s. ?joined = Inr (JStr s))"
    by (rule map_join_list_of[OF wf_multi_select(2)]) (simp add: get_def scalar_js_or)
  show ?case
    using trim_or_null_joined[OF mj]
    by (subst extractPropertyValue.simps) (simp add: get_tag[OF wf_multi_select(1)])
next
  case (wf_date p)
  then show ?case
    by (subst extractPropertyValue.simps) (simp add: get_tag scalar_js_or)
next
  case (wf_checkbox p)
  then show ?case
    by (subst extractPropertyValue.simps) (simp add: get_tag)
next
  case (wf_url p)
  then show ?case
    by (subst extractPropertyValue.simps) (simp add: get_tag opt_trim_text_or_absent)
next
  case (wf_email p)
  then show ?case
    by (subst extractPropertyValue.simps) (simp add: get_tag opt_trim_text_or_absent)
next
  case (wf_phone_number p)
  then show ?case
    by (subst extractPropertyValue.simps) (simp add: get_tag opt_trim_text_or_absent)
next
  case (wf_people p)
  let ?joined = "map_join (js_prop p ''people'') (\<lambda>person. case get person ''name'' of Inl e \<Rightarrow> Inl e
                         | Inr n \<Rightarrow> Inr (js_or n (js_prop person ''id''))) '', ''"
  have mj: "?joined = Inr JUndefined \<or> (\<exists>s. ?joined = Inr (JStr s))"
    by (rule map_join_list_of[OF wf_people(2)]) (simp add: get_def scalar_js_or)
  show ?case
    using trim_or_null_joined[OF mj]
    by (subst extractPropertyValue.simps) (simp add: get_tag[OF wf_people(1)])
next
  case (wf_files p)
  let ?joined = "map_join (js_prop p ''files'') (\<lambda>file. case get file ''name'' of Inl e \<Rightarrow> Inl e
                       | Inr n \<Rightarrow> Inr (js_or (js_or n (opt_js_prop (js_prop file ''file'') ''url''))
                                         (opt_js_prop (js_prop file ''external'') ''url''))) '', ''"
  have mj: "?joined = Inr JUndefined \<or> (\<exists>s. ?joined = Inr (JStr s))"
    by (rule map_join_list_of[OF wf_files(2)]) (simp add: get_def scalar_js_or)
  show ?case
    using trim_or_null_joined[OF mj]
    by (subst extractPropertyValue.simps) (simp add: get_tag[OF wf_files(1)])
next
  case (wf_relation p)
  let ?joined = "map_join (js_prop p ''relation'') (\<lambda>rel. get rel ''id'') '', ''"
  have mj: "?joined = Inr JUndefined \<or> (\<exists>s. ?joined = Inr (JStr s))"
    by (rule map_join_list_of[OF wf_relation(2)]) (simp add: get_def scalar_js_or)
  show ?case
    using trim_or_null_joined[OF mj]
    by (subst extractPropertyValue.simps) (simp add: get_tag[OF wf_relation(1)])
next
  case (wf_formula p)
  then show ?case
    by (subst extractPropertyValue.simps) (simp add: get_tag)
next
  case (wf_rollup_absent p)
  then show ?case
    by (subst extractPropertyValue.simps)
       (simp add: get_tag js_or_def trim_or_null_def js_trim_def trim_def)
next
  case (wf_rollup p items)
  then obtain vs where vs: "extractItems items = Inr vs" "list_all scalar vs"
    using extractItems_scalars by blast
  then obtain s where s: "js_join '', '' vs = Inr s"
    using scalars_join by blast
  show ?case
    by (subst extractPropertyValue.simps)
       (simp add: get_tag[OF wf_rollup(1)] wf_rollup(2) vs s trim_or_null_def js_trim_def js_or_def)
qed

text \<open>
  Every branch of the \<^verbatim>\<open>switch\<close> that reads a nested field guards the read with
  \<^verbatim>\<open>?.\<close>, so that an absent field gives \<^verbatim>\<open>null\<close>; the formula branch,
  line 369, is the one that does not.
\<close>

lemma guarded_branches_give_null:
  "extractPropertyValue (JObj [(''type'', JStr ''rich_text'')]) = Inr JNull"
  "extractPropertyValue (JObj [(''type'', JStr ''select'')]) = Inr JNull"
  "extractPropertyValue (JObj [(''type'', JStr ''url'')]) = Inr JNull"
  "extractPropertyValue (JObj [(''type'', JStr ''people'')]) = Inr JNull"
  "extractPropertyValue (JObj [(''type'', JStr ''rollup'')]) = Inr JNull"
  by code_simp+

text \<open>
  Claim C2, evaluated at a property tagged \<^verbatim>\<open>formula\<close> that carries no
  \<^verbatim>\<open>formula\<close> field. Line 369 sends \<^verbatim>\<open>undefined\<close> into the recursive call,
  whose first step reads \<^verbatim>\<open>.type\<close> of it: the extractor raises a TypeError, where
  the claim has it return \<^verbatim>\<open>null\<close>.
\<close>

theorem extract_formula_without_payload_raises:
  "extractPropertyValue (JObj [(''type'', JStr ''formula'')]) = Inl TypeError"
  by (simp add: extractPropertyValue.simps get_def)

text \<open>
  Where the extractor does return: on a payload of the expected shape, and, with
  \<^verbatim>\<open>null\<close>, on any payload other than \<^verbatim>\<open>null\<close> and \<^verbatim>\<open>undefined\<close>
  whose tag is none of the fourteen handled ones. The recursion of the model has no call
  stack: the depth of nesting at which an engine gives up is not part of it.
\<close>

lemma extract_returns_on_well_formed:
  "(well_formed p \<longrightarrow> (\<exists>v. extractPropertyValue p = Inr v))
   \<and> (\<not> nullish p \<and> js_prop p ''type'' \<notin> JStr ` set handled_tags
        \<longrightarrow> extractPropertyValue p = Inr JNull)"
proof (intro conjI impI)
  assume "well_formed p"
  then show "\<exists>v. extractPropertyValue p = Inr v"
    using well_formed_extracts_scalar by blast
next
  assume "\<not> nullish p \<and> js_prop p ''type'' \<notin> JStr ` set handled_tags"
  then show "extractPropertyValue p = Inr JNull"
    by (subst extractPropertyValue.simps) (auto simp: get_def handled_tags_def)
qed

lemma extract_returns_on_sample_payloads:
  "well_formed
     (JObj [(''type'', JStr ''formula''),
            (''formula'',
             JObj [(''type'', JStr ''rollup''),
                   (''rollup'',
                    JObj [(''array'',
                           JArr [JObj [(''type'', JStr ''number''), (''number'', JNum 0)],
                                 JObj [(''type'', JStr ''rich_text''),
                                       (''rich_text'', JArr [JObj [(''plain_text'', JStr ''a'')]])]])])])])
   \<and> (\<exists>v. extractPropertyValue
         (JObj [(''type'', JStr ''formula''),
                (''formula'',
                 JObj [(''type'', JStr ''rollup''),
                       (''rollup'',
                        JObj [(''array'',
                               JArr [JObj [(''type'', JStr ''number''), (''number'', JNum 0)],
                                     JObj [(''type'', JStr ''rich_text''),
                                           (''rich_text'', JArr [JObj [(''plain_text'', JStr ''a'')]])]])])])])
        = Inr v)
   \<and> \<not> nullish (JObj [(''type'', JStr ''button'')])
   \<and> js_prop (JObj [(''type'', JStr ''button'')]) ''type'' \<notin> JStr ` set handled_tags
   \<and> extractPropertyValue (JObj [(''type'', JStr ''button'')]) = Inr JNull"
proof -
  let ?number = "JObj [(''type'', JStr ''number''), (''number'', JNum 0)]"
  let ?text = "JObj [(''type'', JStr ''rich_text''),
                     (''rich_text'', JArr [JObj [(''plain_text'', JStr ''a'')]])]"
  let ?rollup = "JObj [(''type'', JStr ''rollup''), (''rollup'', JObj [(''array'', JArr [?number, ?text])])]"
  let ?formula = "JObj [(''type'', JStr ''formula''), (''formula'', ?rollup)]"
  let ?button = "JObj [(''type'', JStr ''button'')]"
  have n: "well_formed ?number"
    by (rule wf_number) (simp_all add: scalar_def)
  have t: "well_formed ?text"
    by (rule wf_rich_text) (simp_all add: list_of_def scalar_def)
  have r: "well_formed ?rollup"
    by (rule wf_rollup[where items = "[?number, ?text]"]) (simp_all add: n t opt_js_prop_def)
  have f: "well_formed ?formula"
    by (rule wf_formula) (simp_all add: r)
  have b: "\<not> nullish ?button \<and> js_prop ?button ''type'' \<notin> JStr ` set handled_tags"
    by (simp add: handled_tags_def)
  show ?thesis
    using f b extract_returns_on_well_formed[of ?formula] extract_returns_on_well_formed[of ?button]
    by blast
qed

section \<open>Properties of the serializer\<close>

text \<open>
  Claim C1, evaluated at a record whose number property \<^verbatim>\<open>count\<close> is 0. The
  extractor keeps the 0 apart from \<^verbatim>\<open>null\<close> (line 335), but the test of line 292,
  \<^verbatim>\<open>if (value && value.toString().trim())\<close>, is false for 0 (and for
  \<^verbatim>\<open>false\<close>): the document has no \<^verbatim>\<open>count\<close> line at all.
\<close>

theorem count_zero_gets_no_line:
  "extractPropertyValue (JObj [(''type'', JStr ''number''), (''number'', JNum 0)]) = Inr (JNum 0)
   \<and> markdown_of
        \<lparr>page_id = ''p1'',
         properties = [(''count'', JObj [(''type'', JStr ''number''), (''number'', JNum 0)])],
         created_time = ''t0'', last_edited_time = ''t1''\<rparr>
        \<lparr>schema = [(''count'', JObj [(''type'', JStr ''number'')])]\<rparr> ''Untitled''
      = Inr (''---'' @ [nl] @ ''notion_id: p1'' @ [nl] @ ''created: t0'' @ [nl]
             @ ''updated: t1'' @ [nl] @ ''---'' @ [nl, nl] @ ''# Untitled'' @ [nl, nl])"
  by code_simp

text \<open>The same record with 7 for 0 does get its line; the base file lists the 0 as data.\<close>

lemma count_seven_gets_a_line:
  "markdown_of
        \<lparr>page_id = ''p1'',
         properties = [(''count'', JObj [(''type'', JStr ''number''), (''number'', JNum 7)])],
         created_time = ''t0'', last_edited_time = ''t1''\<rparr>
        \<lparr>schema = [(''count'', JObj [(''type'', JStr ''number'')])]\<rparr> ''Untitled''
      = Inr (''---'' @ [nl] @ ''notion_id: p1'' @ [nl] @ ''created: t0'' @ [nl]
             @ ''updated: t1'' @ [nl] @ ''count: 7'' @ [nl]
             @ ''---'' @ [nl, nl] @ ''# Untitled'' @ [nl, nl])"
  by code_simp

lemma count_zero_is_an_active_property:
  "propertiesWithData \<lparr>schema = [(''count'', JObj [(''type'', JStr ''number'')])]\<rparr>
     [\<lparr>page_id = ''p1'',
       properties = [(''count'', JObj [(''type'', JStr ''number''), (''number'', JNum 0)])],
       created_time = ''t0'', last_edited_time = ''t1''\<rparr>]
   = Inr [''count'']"
  by code_simp

text \<open>
  The test of line 295 reads the cleaned text, in which line 294 has already replaced
  every newline: its middle disjunct never holds.
\<close>

lemma cleanValue_no_newline: "nl \<notin> set (cleanValue s)"
  by (induction s) (auto simp: cleanValue_def)

lemma set_cleanValue_colon: "CHR '':'' \<in> set (cleanValue s) \<longleftrightarrow> CHR '':'' \<in> set s"
  by (induction s) (auto simp: cleanValue_def)

lemma needs_quotes_cleanValue:
  "needs_quotes (cleanValue s) \<longleftrightarrow> CHR '':'' \<in> set s \<or> 100 < length (cleanValue s)"
  using cleanValue_no_newline[of s] set_cleanValue_colon[of s] by (simp add: needs_quotes_def)

text \<open>
  Claim C3, evaluated at a text value with a newline, no colon and fewer than 100
  characters: the newline becomes a space and the value is written without quotes, where
  the claim has it quoted.
\<close>

theorem newline_value_is_not_quoted:
  "property_line ''note''
     (JObj [(''type'', JStr ''rich_text''),
            (''rich_text'', JArr [JObj [(''plain_text'', JStr (''a'' @ [nl] @ ''b''))]])])
   = Inr (''note: a b'' @ [nl])"
  by code_simp

lemma colon_value_is_quoted:
  "property_line ''note''
     (JObj [(''type'', JStr ''rich_text''),
            (''rich_text'', JArr [JObj [(''plain_text'', JStr ''a:b'')]])])
   = Inr (''note: '' @ [dquote] @ ''a:b'' @ [dquote, nl])"
  by code_simp

subsection \<open>The title\<close>

lemma intercalate_Nil: "intercalate [] ss = concat ss"
  by (induction ss rule: induct_list012) simp_all

lemma elem_strings_texts: "elem_strings (map JStr texts) = Inr texts"
  by (induction texts) simp_all

lemma js_map_get_texts:
  "map (\<lambda>t. js_prop t k) runs = map JStr texts \<Longrightarrow>
   js_map (\<lambda>t. get t k) runs = Inr (map JStr texts)"
proof (induction runs arbitrary: texts)
  case Nil
  then show ?case by simp
next
  case (Cons t runs)
  then obtain s rest where texts: "texts = s # rest" "js_prop t k = JStr s"
    "map (\<lambda>t. js_prop t k) runs = map JStr rest"
    by (cases texts) auto
  then have "\<not> nullish t"
    by (cases t) auto
  then show ?case
    using Cons.IH[OF texts(3)] texts by (simp add: get_def)
qed

lemma map_join_texts:
  "map (\<lambda>t. js_prop t ''plain_text'') runs = map JStr texts \<Longrightarrow>
   map_join (JArr runs) (\<lambda>t. get t ''plain_text'') [] = Inr (JStr (concat texts))"
  by (simp add: map_join_def js_map_get_texts js_join_def elem_strings_texts intercalate_Nil)

lemma find_title_Some:
  "find_title sch keys = Inr (Some key) \<Longrightarrow>
   key \<in> set keys \<and> js_prop (js_prop (JObj sch) key) ''type'' = JStr ''title''"
  by (induction keys) (auto simp: get_def split: sum.splits if_splits)

lemma find_title_first:
  "find_title sch keys = Inr (Some key) \<Longrightarrow>
   \<exists>before after. keys = before @ key # after
     \<and> (\<forall>k\<in>set before. js_prop (js_prop (JObj sch) k) ''type'' \<noteq> JStr ''title'')"
proof (induction keys)
  case Nil
  then show ?case by simp
next
  case (Cons k keys)
  show ?case
  proof (cases "js_prop (js_prop (JObj sch) k) ''type'' = JStr ''title''")
    case True
    then have "key = k"
      using Cons.prems by (simp add: get_def split: if_splits)
    then have "k # keys = [] @ key # keys
        \<and> (\<forall>k\<in>set []. js_prop (js_prop (JObj sch) k) ''type'' \<noteq> JStr ''title'')"
      by simp
    then show ?thesis by blast
  next
    case False
    then have "find_title sch keys = Inr (Some key)"
      using Cons.prems by (simp add: get_def split: if_splits)
    from Cons.IH[OF this] obtain before after where
      "keys = before @ key # after"
      "\<forall>k\<in>set before. js_prop (js_prop (JObj sch) k) ''type'' \<noteq> JStr ''title''"
      by blast
    then have "k # keys = (k # before) @ key # after
        \<and> (\<forall>k\<in>set (k # before). js_prop (js_prop (JObj sch) k) ''type'' \<noteq> JStr ''title'')"
      using False by simp
    then show ?thesis by blast
  qed
qed

lemma find_title_None:
  "find_title sch keys = Inr None \<Longrightarrow>
   \<forall>key\<in>set keys. js_prop (js_prop (JObj sch) key) ''type'' \<noteq> JStr ''title''"
  by (induction keys) (auto simp: get_def split: sum.splits if_splits)

text \<open>
  Claim C9, evaluated at a schema whose title property has the empty name and a record
  that holds the run \<^verbatim>\<open>Hi\<close> under it. The search of line 270 finds the property,
  but line 275 tests the name it returns for truth, not for being found, and the empty
  name is false: the title is \<^verbatim>\<open>Untitled\<close>, where the claim has it \<^verbatim>\<open>Hi\<close>.
\<close>

theorem empty_title_name_is_untitled:
  "titleProperty \<lparr>schema = [([], JObj [(''type'', JStr ''title'')])]\<rparr> = Inr (Some [])
   \<and> resolveTitle digits_positive
        \<lparr>page_id = ''p1'',
         properties = [([], JObj [(''type'', JStr ''title''),
                                  (''title'', JArr [JObj [(''plain_text'', JStr ''Hi'')]])])],
         created_time = ''t0'', last_edited_time = ''t1''\<rparr>
        \<lparr>schema = [([], JObj [(''type'', JStr ''title'')])]\<rparr>
      = Inr ''Untitled''"
  by code_simp

text \<open>
  What the title is on every other input. Let \<open>r\<close> be what the search of the schema
  returns: the first name whose tag is \<^verbatim>\<open>title\<close>, or nothing when no name has that
  tag. The title is \<^verbatim>\<open>Untitled\<close> when there is no such name (or, as evaluated
  above, when the name is empty), when the record's value for it has no
  \<^verbatim>\<open>title\<close> field that counts as true, or when that field is the empty array. When the name is not empty and the field is a non-empty array of runs
  with texts \<open>texts\<close>, the title is their concatenation in order, as the claim says.
\<close>

lemma resolveTitle_cases:
  assumes "titleProperty databaseDetails = Inr r"
  shows "(r = None \<longrightarrow>
            (\<forall>key\<in>fst ` set (schema databaseDetails).
               js_prop (js_prop (JObj (schema databaseDetails)) key) ''type'' \<noteq> JStr ''title''))
       \<and> (\<forall>key. r = Some key \<longrightarrow>
            js_prop (js_prop (JObj (schema databaseDetails)) key) ''type'' = JStr ''title''
            \<and> (\<exists>before after. map fst (schema databaseDetails) = before @ key # after
                  \<and> (\<forall>k\<in>set before.
                        js_prop (js_prop (JObj (schema databaseDetails)) k) ''type''
                          \<noteq> JStr ''title'')))
       \<and> (r = None \<or> r = Some [] \<or> \<not> truthy (title_field r page) \<or> title_field r page = JArr []
            \<longrightarrow> resolveTitle positive_text page databaseDetails = Inr ''Untitled'')
       \<and> (r \<noteq> Some [] \<and> title_field r page = JArr runs \<and> runs \<noteq> []
            \<and> map (\<lambda>t. js_prop t ''plain_text'') runs = map JStr texts
            \<longrightarrow> resolveTitle positive_text page databaseDetails = Inr (concat texts))"
proof (cases r)
  case None
  then show ?thesis
    using assms find_title_None[of "schema databaseDetails" "map fst (schema databaseDetails)"]
    by (simp add: resolveTitle_def titleProperty_def title_field_def)
next
  case (Some key)
  let ?entry = "js_prop (JObj (properties page)) key"
  let ?field = "js_prop ?entry ''title''"
  have field: "title_field r page = ?field"
    using Some by (simp add: title_field_def)
  have sch: "js_prop (js_prop (JObj (schema databaseDetails)) key) ''type'' = JStr ''title''
             \<and> (\<exists>before after. map fst (schema databaseDetails) = before @ key # after
                  \<and> (\<forall>k\<in>set before.
                        js_prop (js_prop (JObj (schema databaseDetails)) k) ''type''
                          \<noteq> JStr ''title''))"
    using assms Some
      find_title_Some[of "schema databaseDetails" "map fst (schema databaseDetails)" key]
      find_title_first[of "schema databaseDetails" "map fst (schema databaseDetails)" key]
    by (simp add: titleProperty_def)
  have falsy: "\<not> truthy ?entry \<Longrightarrow> \<not> truthy ?field"
    by (cases ?entry) auto
  have untitled: "resolveTitle positive_text page databaseDetails = Inr ''Untitled''"
    if "key = [] \<or> \<not> truthy ?field \<or> ?field = JArr []"
    using that assms Some falsy by (auto simp: resolveTitle_def Let_def)
  have titled: "resolveTitle positive_text page databaseDetails = Inr (concat texts)"
    if "key \<noteq> []" "?field = JArr runs" "runs \<noteq> []"
      "map (\<lambda>t. js_prop t ''plain_text'') runs = map JStr texts"
  proof -
    have "truthy ?entry"
      using falsy that(2) by auto
    then show ?thesis
      using that assms Some map_join_texts[OF that(4)] by (simp add: resolveTitle_def Let_def)
  qed
  show ?thesis
    using Some sch untitled titled unfolding field by simp
qed

lemma resolveTitle_on_sample_pages:
  "titleProperty sample_schema = Inr (Some ''Name'')
   \<and> title_field (Some ''Name'') (sample_page ''a'' ''Rec A'' JNull)
       = JArr [JObj [(''plain_text'', JStr ''Rec A'')]]
   \<and> resolveTitle digits_positive (sample_page ''a'' ''Rec A'' JNull) sample_schema
       = Inr ''Rec A''
   \<and> titleProperty \<lparr>schema = [(''count'', JObj [(''type'', JStr ''number'')])]\<rparr> = Inr None
   \<and> resolveTitle digits_positive (sample_page ''a'' ''Rec A'' JNull)
        \<lparr>schema = [(''count'', JObj [(''type'', JStr ''number'')])]\<rparr>
       = Inr ''Untitled''"
proof -
  have found: "titleProperty sample_schema = Inr (Some ''Name'')"
    by code_simp
  have field: "title_field (Some ''Name'') (sample_page ''a'' ''Rec A'' JNull)
               = JArr [JObj [(''plain_text'', JStr ''Rec A'')]]"
    by code_simp
  have none: "titleProperty \<lparr>schema = [(''count'', JObj [(''type'', JStr ''number'')])]\<rparr> = Inr None"
    by code_simp
  show ?thesis
    using found field none
      resolveTitle_cases[OF found, where page = "sample_page ''a'' ''Rec A'' JNull"
        and runs = "[JObj [(''plain_text'', JStr ''Rec A'')]]" and texts = "[''Rec A'']"
        and positive_text = digits_positive]
      resolveTitle_cases[OF none, where page = "sample_page ''a'' ''Rec A'' JNull"
        and runs = "[]" and texts = "[]" and positive_text = digits_positive]
    by simp
qed

subsection \<open>The active properties\<close>

lemma set_set_add: "set (set_add acc key) = insert key (set acc)"
  by (auto simp: set_add_def)

lemma page_actual_set:
  "page_actual dd entries acc = Inr acc' \<Longrightarrow>
   set acc' = set acc \<union>
     {key. \<not> is_title dd key \<and>
           (\<exists>property v. (key, property) \<in> set entries \<and> extractPropertyValue property = Inr v
                           \<and> meaningful v)}"
proof (induction entries arbitrary: acc)
  case Nil
  then show ?case by simp
next
  case (Cons entry entries)
  obtain key property where entry: "entry = (key, property)"
    by (cases entry)
  show ?case
  proof (cases "is_title dd key")
    case True
    then have "page_actual dd entries acc = Inr acc'"
      using Cons.prems entry by (simp add: is_title_def)
    from Cons.IH[OF this] True show ?thesis
      unfolding entry by auto
  next
    case False
    then obtain v where v: "extractPropertyValue property = Inr v"
      and rest: "page_actual dd entries (if meaningful v then set_add acc key else acc) = Inr acc'"
      using Cons.prems entry
      by (auto simp: is_title_def meaningful_def split: sum.splits)
    from Cons.IH[OF rest] v False show ?thesis
      unfolding entry by (auto simp: set_set_add split: if_splits)
  qed
qed

lemma actual_loop_set:
  "actual_loop dd pages acc = Inr acc' \<Longrightarrow>
   set acc' = set acc \<union>
     {key. \<not> is_title dd key \<and>
           (\<exists>page\<in>set pages. \<exists>property v. (key, property) \<in> set (properties page)
                \<and> extractPropertyValue property = Inr v \<and> meaningful v)}"
proof (induction pages arbitrary: acc)
  case Nil
  then show ?case by simp
next
  case (Cons page pages)
  then obtain mid where mid: "page_actual dd (properties page) acc = Inr mid"
    and rest: "actual_loop dd pages mid = Inr acc'"
    by (auto split: sum.splits)
  show ?case
    unfolding Cons.IH[OF rest] page_actual_set[OF mid] by auto
qed

lemma split_lines_append: "nl \<notin> set s \<Longrightarrow> split_lines cur (s @ t) = split_lines (cur @ s) t"
  by (induction s arbitrary: cur) auto

lemma split_lines_line: "nl \<notin> set s \<Longrightarrow> split_lines [] (line s @ t) = s # split_lines [] t"
  by (simp add: line_def split_lines_append)

lemma split_lines_entries:
  assumes "\<forall>p\<in>set props. nl \<notin> set (f p) \<and> nl \<notin> set (g p)"
  shows "split_lines [] (concat (map (\<lambda>p. line (f p) @ line (g p)) props) @ t)
         = concat (map (\<lambda>p. [f p, g p]) props) @ split_lines [] t"
  using assms by (induction props) (simp_all add: split_lines_line)

lemma alternate_pairs:
  "alternate (concat (map (\<lambda>p. [f p, g p]) props) @ ys) = map f props @ alternate ys"
  by (induction props) simp_all

lemma section_of_lines:
  assumes "a \<noteq> k" and "b \<noteq> k" and "k \<noteq> []" and "\<forall>l\<in>set body. l \<noteq> []"
  shows "takeWhile (\<lambda>l. l \<noteq> []) (tl (dropWhile (\<lambda>l. l \<noteq> k) (a # b # [] # k # body @ [] # post)))
         = body"
  using assms by (auto simp: takeWhile_append2 simp del: append_Cons)

lemma base_file_lists:
  assumes title: "nl \<notin> set databaseTitle" and names: "\<forall>p\<in>set props. nl \<notin> set p"
  shows "listed_properties (baseContent databaseTitle props)
         = props @ [''notion_id'', ''created'', ''updated'']"
proof -
  define f where "f = (\<lambda>p. ''  '' @ p @ '':'')"
  define g where "g = (\<lambda>p. ''    displayName: '' @ [dquote] @ p @ [dquote])"
  define first where "first = ''# Obsidian Base file for '' @ databaseTitle"
  define metas where "metas =
    [''  notion_id:'', ''    displayName: '' @ [dquote] @ ''Notion ID'' @ [dquote],
     ''  created:'', ''    displayName: '' @ [dquote] @ ''Created (Notion)'' @ [dquote],
     ''  updated:'', ''    displayName: '' @ [dquote] @ ''Updated (Notion)'' @ [dquote]]"
  obtain rest where doc: "baseContent databaseTitle props =
      line first
      @ line ''# Generated from Notion API'' @ [nl]
      @ line ''properties:''
      @ concat (map (\<lambda>p. line (f p) @ line (g p)) props)
      @ concat (map line metas) @ [nl]
      @ rest"
    unfolding baseContent_def f_def g_def first_def metas_def by auto
  have entries: "\<forall>p\<in>set props. nl \<notin> set (f p) \<and> nl \<notin> set (g p)"
    using names by (simp add: f_def g_def)
  have lines_first: "split_lines [] (line first @ t) = first # split_lines [] t" for t
    using title by (simp add: split_lines_line first_def)
  have lines_fixed:
    "split_lines [] (line ''# Generated from Notion API'' @ t)
       = ''# Generated from Notion API'' # split_lines [] t"
    "split_lines [] (line ''properties:'' @ t) = ''properties:'' # split_lines [] t" for t
    by (rule split_lines_line, simp)+
  have lines_blank: "split_lines [] ([nl] @ t) = [] # split_lines [] t" for t
    by simp
  have lines_metas: "split_lines [] (concat (map line metas) @ t) = metas @ split_lines [] t" for t
    by (simp add: metas_def split_lines_line)
  have lines: "lines_of (baseContent databaseTitle props) =
      first # ''# Generated from Notion API'' # [] # ''properties:''
      # (concat (map (\<lambda>p. [f p, g p]) props) @ metas) @ [] # split_lines [] rest"
    unfolding doc lines_of_def lines_first lines_fixed lines_blank
      split_lines_entries[OF entries] lines_metas
    by simp
  have nonempty: "\<forall>l\<in>set (concat (map (\<lambda>p. [f p, g p]) props) @ metas). l \<noteq> []"
    by (auto simp: f_def g_def metas_def)
  have listed: "takeWhile (\<lambda>l. l \<noteq> [])
          (tl (dropWhile (\<lambda>l. l \<noteq> ''properties:'') (lines_of (baseContent databaseTitle props))))
        = concat (map (\<lambda>p. [f p, g p]) props) @ metas"
    unfolding lines
    by (rule section_of_lines) (simp_all add: first_def nonempty)
  have names_of: "map ((\<lambda>l. butlast (drop 2 l)) \<circ> f) props = props"
    by (induction props) (simp_all add: f_def butlast_append)
  have "alternate metas = [''  notion_id:'', ''  created:'', ''  updated:'']"
    by (simp add: metas_def)
  then show ?thesis
    unfolding listed_properties_def listed
    by (simp add: alternate_pairs names_of)
qed

text \<open>When the two loops return: exactly when no extraction they reach raises.\<close>

lemma page_actual_returns:
  "(\<exists>acc'. page_actual dd entries acc = Inr acc') \<longleftrightarrow>
   (\<forall>(key, property)\<in>set entries.
      \<not> is_title dd key \<longrightarrow> (\<exists>v. extractPropertyValue property = Inr v))"
proof (induction entries arbitrary: acc)
  case Nil
  then show ?case by simp
next
  case (Cons entry entries)
  obtain key property where entry: "entry = (key, property)"
    by (cases entry)
  show ?case
  proof (cases "is_title dd key")
    case True
    then show ?thesis
      using Cons.IH[of acc] unfolding entry by (simp add: is_title_def)
  next
    case False
    show ?thesis
    proof (cases "extractPropertyValue property")
      case (Inl e)
      then show ?thesis
        using False unfolding entry by (auto simp: is_title_def)
    next
      case (Inr v)
      then show ?thesis
        using False Cons.IH[of "if meaningful v then set_add acc key else acc"]
        unfolding entry by (simp add: is_title_def meaningful_def)
    qed
  qed
qed

lemma actual_loop_returns:
  "(\<exists>acc'. actual_loop dd pages acc = Inr acc') \<longleftrightarrow>
   (\<forall>page\<in>set pages. \<forall>(key, property)\<in>set (properties page).
      \<not> is_title dd key \<longrightarrow> (\<exists>v. extractPropertyValue property = Inr v))"
proof (induction pages arbitrary: acc)
  case Nil
  then show ?case by simp
next
  case (Cons page pages)
  show ?case
  proof (cases "page_actual dd (properties page) acc")
    case (Inl e)
    then have "\<not> (\<exists>acc'. page_actual dd (properties page) acc = Inr acc')"
      by simp
    then show ?thesis
      using Inl unfolding page_actual_returns by auto
  next
    case (Inr mid)
    then have "\<exists>acc'. page_actual dd (properties page) acc = Inr acc'"
      by simp
    then show ?thesis
      using Inr Cons.IH[of mid] unfolding page_actual_returns by simp
  qed
qed

text \<open>
  Claim C4. The base file is built from \<^verbatim>\<open>propertiesWithData\<close>, which exists exactly
  when no extraction of a non-title entry raises (an exception there leaves
  \<^verbatim>\<open>createBaseFile\<close> without a file). When it exists: a name is in it if and only
  if the schema does not tag the name as the title and some record has an entry of that
  name whose extracted value is not \<^verbatim>\<open>null\<close>, not \<^verbatim>\<open>undefined\<close>, not the empty
  text and not \<^verbatim>\<open>false\<close>, so the title property is never in it; the text handed to
  \<^verbatim>\<open>vault.create\<close> is \<^verbatim>\<open>baseContent\<close> of it; and, the database title and the
  names being free of newlines, the names that the properties section of that text
  lists are these followed by the three metadata columns.
\<close>

theorem active_properties_listed:
  "((\<exists>names. propertiesWithData databaseDetails pages = Inr names) \<longleftrightarrow>
      (\<forall>page\<in>set pages. \<forall>(name, property)\<in>set (properties page).
         opt_js_prop (js_prop (JObj (schema databaseDetails)) name) ''type'' \<noteq> JStr ''title''
         \<longrightarrow> (\<exists>v. extractPropertyValue property = Inr v)))
   \<and> (propertiesWithData databaseDetails pages = Inr props \<longrightarrow>
        (key \<in> set props \<longleftrightarrow>
           opt_js_prop (js_prop (JObj (schema databaseDetails)) key) ''type'' \<noteq> JStr ''title''
           \<and> (\<exists>page\<in>set pages. \<exists>property v.
                 (key, property) \<in> set (properties page)
                 \<and> extractPropertyValue property = Inr v
                 \<and> v \<noteq> JNull \<and> v \<noteq> JUndefined \<and> v \<noteq> JStr [] \<and> v \<noteq> JBool False))
        \<and> base_body h database databaseDetails pages folder files =
            (case vault_create h files
                    (path folder @ ''/'' @ sanitizeFilePath h (db_title database) @ ''.base'')
                    (baseContent (db_title database) props) of
               Inl e \<Rightarrow> Inl e
             | Inr files' \<Rightarrow> Inr (sanitizeFilePath h (db_title database) @ ''.base'', files'))
        \<and> (nl \<notin> set (db_title database) \<and> (\<forall>p\<in>set props. nl \<notin> set p) \<longrightarrow>
             listed_properties (baseContent (db_title database) props)
               = props @ [''notion_id'', ''created'', ''updated'']))"
proof (intro conjI impI)
  show "(\<exists>names. propertiesWithData databaseDetails pages = Inr names) \<longleftrightarrow>
      (\<forall>page\<in>set pages. \<forall>(name, property)\<in>set (properties page).
         opt_js_prop (js_prop (JObj (schema databaseDetails)) name) ''type'' \<noteq> JStr ''title''
         \<longrightarrow> (\<exists>v. extractPropertyValue property = Inr v))"
    unfolding propertiesWithData_def actual_loop_returns by (simp add: is_title_def)
next
  assume run: "propertiesWithData databaseDetails pages = Inr props"
  show "key \<in> set props \<longleftrightarrow>
           opt_js_prop (js_prop (JObj (schema databaseDetails)) key) ''type'' \<noteq> JStr ''title''
           \<and> (\<exists>page\<in>set pages. \<exists>property v.
                 (key, property) \<in> set (properties page)
                 \<and> extractPropertyValue property = Inr v
                 \<and> v \<noteq> JNull \<and> v \<noteq> JUndefined \<and> v \<noteq> JStr [] \<and> v \<noteq> JBool False)"
    using actual_loop_set[OF run[unfolded propertiesWithData_def]]
    by (simp add: is_title_def meaningful_def)
  show "base_body h database databaseDetails pages folder files =
            (case vault_create h files
                    (path folder @ ''/'' @ sanitizeFilePath h (db_title database) @ ''.base'')
                    (baseContent (db_title database) props) of
               Inl e \<Rightarrow> Inl e
             | Inr files' \<Rightarrow> Inr (sanitizeFilePath h (db_title database) @ ''.base'', files'))"
    using run by (simp add: base_body_def Let_def)
next
  assume "nl \<notin> set (db_title database) \<and> (\<forall>p\<in>set props. nl \<notin> set p)"
  then show "listed_properties (baseContent (db_title database) props)
               = props @ [''notion_id'', ''created'', ''updated'']"
    using base_file_lists by blast
qed

theorem active_properties_listed_witness:
  "propertiesWithData sample_schema [sample_page ''a'' ''A'' (JNum 0), sample_page ''b'' ''B'' JNull]
     = Inr [''count'']
   \<and> opt_js_prop (js_prop (JObj (schema sample_schema)) ''count'') ''type'' \<noteq> JStr ''title''
   \<and> (\<exists>page\<in>set [sample_page ''a'' ''A'' (JNum 0), sample_page ''b'' ''B'' JNull].
         \<exists>property v. (''count'', property) \<in> set (properties page)
           \<and> extractPropertyValue property = Inr v
           \<and> v \<noteq> JNull \<and> v \<noteq> JUndefined \<and> v \<noteq> JStr [] \<and> v \<noteq> JBool False)
   \<and> nl \<notin> set ''Tasks''
   \<and> listed_properties (baseContent ''Tasks'' [''count''])
       = [''count'', ''notion_id'', ''created'', ''updated'']"
proof -
  let ?pages = "[sample_page ''a'' ''A'' (JNum 0), sample_page ''b'' ''B'' JNull]"
  let ?db = "\<lparr>db_id = ''db1'', db_title = ''Tasks'', db_properties = [''Name'', ''count'', ''done'']\<rparr>"
  have run: "propertiesWithData sample_schema ?pages = Inr [''count'']"
    by code_simp
  have clean: "nl \<notin> set (db_title ?db) \<and> (\<forall>p\<in>set [''count'']. nl \<notin> set p)"
    by simp
  note fact = active_properties_listed[where databaseDetails = sample_schema and pages = ?pages
      and props = "[''count'']" and key = "''count''" and h = sample_host and database = ?db
      and folder = "\<lparr>path = ''out''\<rparr>" and files = "[]"]
  note listed = fact[THEN conjunct2, rule_format, OF run]
  have "opt_js_prop (js_prop (JObj (schema sample_schema)) ''count'') ''type'' \<noteq> JStr ''title''
     \<and> (\<exists>page\<in>set ?pages.
         \<exists>property v. (''count'', property) \<in> set (properties page)
           \<and> extractPropertyValue property = Inr v
           \<and> v \<noteq> JNull \<and> v \<noteq> JUndefined \<and> v \<noteq> JStr [] \<and> v \<noteq> JBool False)"
    using listed[THEN conjunct1] by simp
  moreover have "listed_properties (baseContent ''Tasks'' [''count''])
       = [''count'', ''notion_id'', ''created'', ''updated'']"
    using listed[THEN conjunct2, THEN conjunct2] clean by simp
  ultimately show ?thesis
    using run by simp
qed

section \<open>Properties of the paginator and of the run\<close>

lemma requests_of_append: "requests_of (es @ fs) = requests_of es @ requests_of fs"
  by (induction es rule: requests_of.induct) simp_all

lemma failures_of_append: "failures_of (es @ fs) = failures_of es @ failures_of fs"
  by (induction es rule: failures_of.induct) simp_all

lemma fetchLoop_done: "fetchLoop h d acc False c w = Some (Inr acc, w)"
  by (subst fetchLoop.simps) simp

lemma fetchLoop_cancelled:
  "cancelled h (polls w) \<Longrightarrow>
   fetchLoop h d acc True c w = Some (Inr acc, w\<lparr>polls := Suc (polls w)\<rparr>)"
  by (subst fetchLoop.simps) (simp add: isCancelled_def)

lemma fetchLoop_error:
  "\<not> cancelled h (polls w) \<Longrightarrow> queryResponse h (queries w) = Inl err \<Longrightarrow>
   fetchLoop h d acc True c w =
     Some (Inl err, w\<lparr>events := events w @ [QueryRequest d c], polls := Suc (polls w),
                      queries := Suc (queries w)\<rparr>)"
  by (subst fetchLoop.simps) (simp add: isCancelled_def requestQuery_def emit_def)

lemma fetchLoop_page:
  "\<not> cancelled h (polls w) \<Longrightarrow> queryResponse h (queries w) = Inr r \<Longrightarrow>
   fetchLoop h d acc True c w =
     fetchLoop h d (acc @ results r) (has_more r) (next_cursor r)
       (w\<lparr>polls := Suc (polls w), queries := Suc (queries w),
          events := events w @ [QueryRequest d c,
              Status (''Fetched '' @ show_nat (length (acc @ results r)) @ '' pages...'')]\<rparr>)"
  by (subst fetchLoop.simps) (simp add: isCancelled_def requestQuery_def emit_def)

lemma fetchLoop_pages:
  assumes "rs \<noteq> []"
    and "\<forall>i<length rs. queryResponse h (queries w + i) = Inr (rs ! i)"
    and "\<forall>i<length rs. has_more (rs ! i) = (Suc i < length rs)"
    and "\<forall>i<length rs. \<not> cancelled h (polls w + i)"
  shows "\<exists>w'. fetchLoop h d acc True c w = Some (Inr (acc @ concat (map results rs)), w')
           \<and> queries w' = queries w + length rs
           \<and> polls w' = polls w + length rs
           \<and> vault w' = vault w
           \<and> requests_of (events w') = requests_of (events w) @ c # map next_cursor (butlast rs)
           \<and> failures_of (events w') = failures_of (events w)"
  using assms
proof (induction rs arbitrary: w acc c)
  case Nil
  then show ?case by simp
next
  case (Cons r rs)
  let ?w1 = "w\<lparr>polls := Suc (polls w), queries := Suc (queries w),
              events := events w @ [QueryRequest d c,
                Status (''Fetched '' @ show_nat (length (acc @ results r)) @ '' pages...'')]\<rparr>"
  have first: "queryResponse h (queries w) = Inr r" "\<not> cancelled h (polls w)"
    using Cons.prems(2)[rule_format, of 0] Cons.prems(4)[rule_format, of 0] by simp_all
  have more: "has_more r = (rs \<noteq> [])"
    using Cons.prems(3)[rule_format, of 0] by simp
  have step: "fetchLoop h d acc True c w =
              fetchLoop h d (acc @ results r) (has_more r) (next_cursor r) ?w1"
    using fetchLoop_page[OF first(2) first(1)] .
  show ?case
  proof (cases "rs = []")
    case True
    then show ?thesis
      using step more by (simp add: fetchLoop_done requests_of_append failures_of_append)
  next
    case False
    have a: "\<forall>i<length rs. queryResponse h (queries ?w1 + i) = Inr (rs ! i)"
    proof (intro allI impI)
      fix i assume "i < length rs"
      then show "queryResponse h (queries ?w1 + i) = Inr (rs ! i)"
        using Cons.prems(2)[rule_format, of "Suc i"] by simp
    qed
    have b: "\<forall>i<length rs. has_more (rs ! i) = (Suc i < length rs)"
    proof (intro allI impI)
      fix i assume "i < length rs"
      then show "has_more (rs ! i) = (Suc i < length rs)"
        using Cons.prems(3)[rule_format, of "Suc i"] by simp
    qed
    have c: "\<forall>i<length rs. \<not> cancelled h (polls ?w1 + i)"
    proof (intro allI impI)
      fix i assume "i < length rs"
      then show "\<not> cancelled h (polls ?w1 + i)"
        using Cons.prems(4)[rule_format, of "Suc i"] by simp
    qed
    from Cons.IH[OF False a b c, of "acc @ results r" "next_cursor r"]
    obtain w' where w': "fetchLoop h d (acc @ results r) True (next_cursor r) ?w1
          = Some (Inr ((acc @ results r) @ concat (map results rs)), w')"
      "queries w' = queries ?w1 + length rs" "polls w' = polls ?w1 + length rs"
      "vault w' = vault ?w1"
      "requests_of (events w') = requests_of (events ?w1) @ next_cursor r # map next_cursor (butlast rs)"
      "failures_of (events w') = failures_of (events ?w1)"
      by blast
    show ?thesis
      using step more False w' by (simp add: requests_of_append failures_of_append)
  qed
qed

lemma successes_of_append: "successes_of (es @ fs) = successes_of es @ successes_of fs"
  by (induction es rule: successes_of.induct) simp_all

lemma fetchLoop_fails:
  assumes "\<forall>i<length rs. queryResponse h (queries w + i) = Inr (rs ! i)"
    and "\<forall>i<length rs. has_more (rs ! i)"
    and "queryResponse h (queries w + length rs) = Inl err"
    and "\<forall>i\<le>length rs. \<not> cancelled h (polls w + i)"
  shows "\<exists>w'. fetchLoop h d acc True c w = Some (Inl err, w')
           \<and> queries w' = queries w + Suc (length rs)
           \<and> polls w' = polls w + Suc (length rs)
           \<and> vault w' = vault w
           \<and> failures_of (events w') = failures_of (events w)
           \<and> successes_of (events w') = successes_of (events w)"
  using assms
proof (induction rs arbitrary: w acc c)
  case Nil
  then show ?case
    by (simp add: fetchLoop_error failures_of_append successes_of_append)
next
  case (Cons r rs)
  let ?w1 = "w\<lparr>polls := Suc (polls w), queries := Suc (queries w),
              events := events w @ [QueryRequest d c,
                Status (''Fetched '' @ show_nat (length (acc @ results r)) @ '' pages...'')]\<rparr>"
  have first: "queryResponse h (queries w) = Inr r" "\<not> cancelled h (polls w)" "has_more r"
    using Cons.prems(1)[rule_format, of 0] Cons.prems(4)[rule_format, of 0]
      Cons.prems(2)[rule_format, of 0] by simp_all
  have step: "fetchLoop h d acc True c w =
              fetchLoop h d (acc @ results r) True (next_cursor r) ?w1"
    using fetchLoop_page[OF first(2) first(1), of d acc c] first(3) by simp
  have a: "\<forall>i<length rs. queryResponse h (queries ?w1 + i) = Inr (rs ! i)"
  proof (intro allI impI)
    fix i assume "i < length rs"
    then show "queryResponse h (queries ?w1 + i) = Inr (rs ! i)"
      using Cons.prems(1)[rule_format, of "Suc i"] by simp
  qed
  have b: "\<forall>i<length rs. has_more (rs ! i)"
  proof (intro allI impI)
    fix i assume "i < length rs"
    then show "has_more (rs ! i)"
      using Cons.prems(2)[rule_format, of "Suc i"] by simp
  qed
  have e: "queryResponse h (queries ?w1 + length rs) = Inl err"
    using Cons.prems(3) by simp
  have c: "\<forall>i\<le>length rs. \<not> cancelled h (polls ?w1 + i)"
  proof (intro allI impI)
    fix i assume "i \<le> length rs"
    then show "\<not> cancelled h (polls ?w1 + i)"
      using Cons.prems(4)[rule_format, of "Suc i"] by simp
  qed
  from Cons.IH[OF a b e c, of "acc @ results r" "next_cursor r"]
  obtain w' where w': "fetchLoop h d (acc @ results r) True (next_cursor r) ?w1 = Some (Inl err, w')"
    "queries w' = queries ?w1 + Suc (length rs)" "polls w' = polls ?w1 + Suc (length rs)"
    "vault w' = vault ?w1" "failures_of (events w') = failures_of (events ?w1)"
    "successes_of (events w') = successes_of (events ?w1)"
    by blast
  show ?case
    using step w' by (simp add: failures_of_append successes_of_append)
qed

text \<open>
  Claim C5. Let the host answer the next N queries, N at least 1, with the pages
  \<open>rs\<close>, each but the last saying \<^verbatim>\<open>has_more\<close> and the last not, and let nobody
  cancel. Then the paginator returns, with the records of all the pages concatenated in
  order; it has sent exactly N queries, the first with no cursor and each following one
  with the \<^verbatim>\<open>next_cursor\<close> of the page before.
\<close>

theorem fetchAllPages_concatenates:
  assumes "rs \<noteq> []"
    and "\<forall>i<length rs. queryResponse h (queries w + i) = Inr (rs ! i)"
    and "\<forall>i<length rs. has_more (rs ! i) = (Suc i < length rs)"
    and "\<forall>n. \<not> cancelled h n"
  shows "\<exists>w'. fetchAllPages h d w = Some (Inr (concat (map results rs)), w')
           \<and> queries w' = queries w + length rs
           \<and> requests_of (events w') = requests_of (events w) @ None # map next_cursor (butlast rs)"
proof -
  have "\<forall>i<length rs. \<not> cancelled h (polls w + i)"
    using assms(4) by simp
  from fetchLoop_pages[OF assms(1-3) this, of d "[]" None]
  show ?thesis
    unfolding fetchAllPages_def by auto
qed

theorem fetchAllPages_concatenates_witness:
  "\<exists>w'. fetchAllPages sample_host ''db1'' start
          = Some (Inr [sample_page ''a'' ''A'' (JNum 0), sample_page ''b'' ''B'' JNull], w')
        \<and> queries w' = 2
        \<and> requests_of (events w') = [None, Some ''c1'']"
proof -
  let ?rs = "[\<lparr>results = [sample_page ''a'' ''A'' (JNum 0)], has_more = True,
               next_cursor = Some ''c1''\<rparr>,
              \<lparr>results = [sample_page ''b'' ''B'' JNull], has_more = False, next_cursor = None\<rparr>]"
  have ne: "?rs \<noteq> []"
    by simp
  have responses: "\<forall>i<length ?rs. queryResponse sample_host (queries start + i) = Inr (?rs ! i)"
    by (simp add: sample_host_def sample_response_def start_def All_less_Suc)
  have more: "\<forall>i<length ?rs. has_more (?rs ! i) = (Suc i < length ?rs)"
    by (simp add: All_less_Suc)
  have never: "\<forall>n. \<not> cancelled sample_host n"
    by (simp add: sample_host_def)
  show ?thesis
    using fetchAllPages_concatenates[OF ne responses more never, of "''db1''"]
    by (simp add: start_def numeral_2_eq_2)
qed

text \<open>
  Claim C6. When the poll that precedes the first query finds the run cancelled, the
  paginator returns the empty sequence, without error: the world is as before but for
  the poll, so no query was sent.
\<close>

theorem fetchAllPages_cancelled_first:
  assumes "cancelled h (polls w)"
  shows "fetchAllPages h d w = Some (Inr [], w\<lparr>polls := Suc (polls w)\<rparr>)"
  using assms by (simp add: fetchAllPages_def fetchLoop_cancelled)

theorem fetchAllPages_cancelled_first_witness:
  "cancelled cancelled_host (polls start)
   \<and> fetchAllPages cancelled_host ''db1'' start
       = Some (Inr [], \<lparr>events = [], vault = [], polls = 1, queries = 0\<rparr>)"
proof -
  have c: "cancelled cancelled_host (polls start)"
    by (simp add: cancelled_host_def)
  show ?thesis
    using c fetchAllPages_cancelled_first[OF c, of "''db1''"] by (simp add: start_def)
qed

text \<open>
  Claim C7. Let a run get past its checks of the settings and fetch the database
  details, let the first k page queries succeed with \<^verbatim>\<open>has_more\<close>, and let the next
  one raise \<open>err\<close> (the polls up to that query finding no cancellation, or the query
  would not have been sent). Then the run ends; it has sent k + 1 page queries and no
  more; it has called \<^verbatim>\<open>ctx.reportFailed\<close> exactly once, with the title of the selected
  database and \<open>err\<close>, and reported no success; and the vault is as it was: the pages
  are all fetched before any document is written, nothing is written and nothing is
  removed.
\<close>

theorem import_aborts_on_transport_error:
  assumes "notionToken imp \<noteq> []" and "selectedDatabaseId imp \<noteq> []"
    and "outputFolder h = Some folder"
    and "find (\<lambda>db. db_id db = selectedDatabaseId imp) (databases imp) = Some selectedDatabase"
    and "detailsResponse h = Inr databaseDetails"
    and "\<forall>i<length rs. queryResponse h (queries w + i) = Inr (rs ! i)"
    and "\<forall>i<length rs. has_more (rs ! i)"
    and "queryResponse h (queries w + length rs) = Inl err"
    and "\<forall>i\<le>Suc (length rs). \<not> cancelled h (polls w + i)"
  shows "\<exists>w'. import_run h imp w = Some w'
           \<and> queries w' = queries w + Suc (length rs)
           \<and> failures_of (events w') = failures_of (events w) @ [(db_title selectedDatabase, err)]
           \<and> successes_of (events w') = successes_of (events w)
           \<and> vault w' = vault w"
proof -
  define wd where "wd =
    emit (Status ''Fetching database pages...'')
      (snd (isCancelled h
        (snd (fetchDatabaseDetails h (selectedDatabaseId imp)
          (emit (Status ''Fetching database details...'') w)))))"
  have wd: "queries wd = queries w" "polls wd = Suc (polls w)" "vault wd = vault w"
    "failures_of (events wd) = failures_of (events w)"
    "successes_of (events wd) = successes_of (events w)"
    by (simp_all add: wd_def emit_def isCancelled_def fetchDatabaseDetails_def
        failures_of_append successes_of_append)
  have a: "\<forall>i<length rs. queryResponse h (queries wd + i) = Inr (rs ! i)"
    using assms(6) wd(1) by simp
  have e: "queryResponse h (queries wd + length rs) = Inl err"
    using assms(8) wd(1) by simp
  have c: "\<forall>i\<le>length rs. \<not> cancelled h (polls wd + i)"
  proof (intro allI impI)
    fix i assume "i \<le> length rs"
    then show "\<not> cancelled h (polls wd + i)"
      using assms(9)[rule_format, of "Suc i"] wd(2) by simp
  qed
  from fetchLoop_fails[OF a assms(7) e c, of "selectedDatabaseId imp" "[]" None]
  obtain w1 where w1: "fetchAllPages h (selectedDatabaseId imp) wd = Some (Inl err, w1)"
    "queries w1 = queries wd + Suc (length rs)" "vault w1 = vault wd"
    "failures_of (events w1) = failures_of (events wd)"
    "successes_of (events w1) = successes_of (events wd)"
    unfolding fetchAllPages_def by blast
  have first_poll: "\<not> cancelled h (polls w)"
    using assms(9)[rule_format, of 0] by simp
  have body: "import_body h imp selectedDatabase folder w = Some (Some err, w1)"
    using w1(1) first_poll assms(5)
    by (simp add: import_body_def wd_def fetchDatabaseDetails_def isCancelled_def emit_def)
  show ?thesis
    using assms(1-4) body w1 wd
    by (simp add: import_run_def emit_def failures_of_append successes_of_append)
qed

theorem import_aborts_witness:
  "\<exists>w'. import_run failing_host sample_importer start = Some w'
        \<and> queries w' = 2
        \<and> failures_of (events w') = [(''Tasks'', TransportError ''offline'')]
        \<and> successes_of (events w') = []
        \<and> vault w' = []"
proof -
  let ?rs = "[\<lparr>results = [sample_page ''a'' ''A'' (JNum 0)], has_more = True,
               next_cursor = Some ''c1''\<rparr>]"
  let ?db = "\<lparr>db_id = ''db1'', db_title = ''Tasks'', db_properties = [''Name'', ''count'', ''done'']\<rparr>"
  have settings: "notionToken sample_importer \<noteq> []" "selectedDatabaseId sample_importer \<noteq> []"
    "outputFolder failing_host = Some \<lparr>path = ''out''\<rparr>"
    "find (\<lambda>db. db_id db = selectedDatabaseId sample_importer) (databases sample_importer) = Some ?db"
    "detailsResponse failing_host = Inr sample_schema"
    by (simp_all add: sample_importer_def failing_host_def sample_host_def)
  have responses: "\<forall>i<length ?rs. queryResponse failing_host (queries start + i) = Inr (?rs ! i)"
    by (simp add: failing_host_def sample_host_def sample_response_def start_def)
  have more: "\<forall>i<length ?rs. has_more (?rs ! i)"
    by simp
  have fails: "queryResponse failing_host (queries start + length ?rs) = Inl (TransportError ''offline'')"
    by (simp add: failing_host_def sample_host_def start_def)
  have never: "\<forall>i\<le>Suc (length ?rs). \<not> cancelled failing_host (polls start + i)"
    by (simp add: failing_host_def sample_host_def)
  show ?thesis
    using import_aborts_on_transport_error[OF settings responses more fails never]
    by (simp add: start_def numeral_2_eq_2)
qed

subsection \<open>A record that fails to convert\<close>

text \<open>
  Claim C8, as the code has it. The claim has the failure of one record reported through
  the reporting channel of the run. In a run over two records, the first of which cannot
  be saved, the failure reaches \<^verbatim>\<open>console.error\<close> only: the context gets the
  progress of both records and the success of the second, and no call of
  \<^verbatim>\<open>reportFailed\<close>.
\<close>

theorem failed_record_is_only_logged:
  "fst (convertPages sample_host \<lparr>path = ''out''\<rparr> sample_schema 2 0
          [sample_page ''x'' ''Locked'' (JNum 1), sample_page ''a'' ''A'' (JNum 1)] [] start)
     = Some [''A.md'']
   \<and> events (snd (convertPages sample_host \<lparr>path = ''out''\<rparr> sample_schema 2 0
          [sample_page ''x'' ''Locked'' (JNum 1), sample_page ''a'' ''A'' (JNum 1)] [] start))
     = [ConsoleError ''Error converting page:'' (WriteError ''Locked''),
        ReportProgress 1 2,
        ReportNoteSuccess ''A.md'',
        ReportProgress 2 2]
   \<and> failures_of (events (snd (convertPages sample_host \<lparr>path = ''out''\<rparr> sample_schema 2 0
          [sample_page ''x'' ''Locked'' (JNum 1), sample_page ''a'' ''A'' (JNum 1)] [] start)))
     = []"
  by code_simp

text \<open>
  Claim C8, amended. When the run is not cancelled and the conversion of a record raises
  \<open>err\<close>, while serializing or while writing, the error is caught: the loop goes on
  with the remaining records from a world in which the names collected and the vault
  are as before, and the only events added are the \<^verbatim>\<open>console.error\<close> of the failure
  and the progress of the record. No success and no failure is reported to the context
  for it.
\<close>

theorem failed_record_is_skipped:
  assumes "\<not> cancelled h (polls w)"
    and "convert_body h page folder databaseDetails (vault w) = Inl err"
  shows "convertPages h folder databaseDetails totalCount i (page # rest) convertedFiles w =
         convertPages h folder databaseDetails totalCount (Suc i) rest convertedFiles
           (w\<lparr>polls := Suc (polls w),
              events := events w @ [ConsoleError ''Error converting page:'' err,
                                    ReportProgress (Suc i) totalCount]\<rparr>)"
  using assms by (simp add: isCancelled_def convertPageToMarkdown_def emit_def)

theorem failed_record_is_skipped_witness:
  "\<not> cancelled sample_host (polls start)
   \<and> convert_body sample_host (sample_page ''x'' ''Locked'' (JNum 1)) \<lparr>path = ''out''\<rparr>
         sample_schema (vault start) = Inl (WriteError ''Locked'')
   \<and> convertPages sample_host \<lparr>path = ''out''\<rparr> sample_schema 2 0
        [sample_page ''x'' ''Locked'' (JNum 1), sample_page ''a'' ''A'' (JNum 1)] [] start
     = convertPages sample_host \<lparr>path = ''out''\<rparr> sample_schema 2 (Suc 0)
        [sample_page ''a'' ''A'' (JNum 1)] []
        (start\<lparr>polls := Suc (polls start),
               events := events start @ [ConsoleError ''Error converting page:'' (WriteError ''Locked''),
                                         ReportProgress (Suc 0) 2]\<rparr>)"
proof -
  have poll: "\<not> cancelled sample_host (polls start)"
    by (simp add: sample_host_def)
  have raised: "convert_body sample_host (sample_page ''x'' ''Locked'' (JNum 1)) \<lparr>path = ''out''\<rparr>
                  sample_schema (vault start) = Inl (WriteError ''Locked'')"
    by code_simp
  show ?thesis
    using poll raised
      failed_record_is_skipped[OF poll raised, of 2 0 "[sample_page ''a'' ''A'' (JNum 1)]" "[]"]
    by simp
qed

text \<open>A malformed payload is such a failure: the TypeError of the extractor ends the
  conversion of its record, and of that record only.\<close>

lemma malformed_record_fails_to_convert:
  "convertPageToMarkdown sample_host
     \<lparr>page_id = ''m'', properties = [(''sum'', JObj [(''type'', JStr ''formula'')])],
      created_time = ''t0'', last_edited_time = ''t1''\<rparr>
     \<lparr>path = ''out''\<rparr> sample_schema start
   = (None, start\<lparr>events := [ConsoleError ''Error converting page:'' TypeError]\<rparr>)"
  by code_simp

end
